theory Spec2Isabelle
  imports Main
begin

section \<open>Python values, exceptions and string operations\<close>

text \<open>
  A Python \<open>str\<close> is modelled as a \<open>string\<close> in which every \<open>char\<close> is one code point;
  the model therefore covers the texts whose code points lie in U+0000..U+00FF.

  \<open>pyval\<close> is the type of the objects that \<open>json.loads\<close> builds (\<open>None\<close>, \<open>bool\<close>,
  \<open>int\<close>, \<open>str\<close>, \<open>list\<close>, \<open>dict\<close> with \<open>str\<close> keys in insertion order).
  Floating-point numbers are not part of the model.  The fields of a
  \<open>ValidationIssue\<close> hold such objects: the dataclass annotations are not enforced and
  \<open>_analyze_with_gemini\<close> stores whatever the decoded response contains.
\<close>

datatype pyval =
    PNone
  | PBool bool
  | PInt int
  | PStr string
  | PList "pyval list"
  | PDict "(string \<times> pyval) list"

text \<open>
  An exception is its class and the text of \<open>str(e)\<close>.  The type stands for the
  instances of \<open>Exception\<close>, which is what the \<open>except Exception\<close> clauses of the
  source catch.
\<close>

datatype exn_class =
    FileNotFoundError
  | ValueError
  | AttributeError
  | TypeError
  | KeyError
  | OtherException string

datatype exn = Exn exn_class string

fun exn_class_of :: "exn \<Rightarrow> exn_class" where
  "exn_class_of (Exn c m) = c"

fun exn_str :: "exn \<Rightarrow> string" where
  "exn_str (Exn c m) = m"

fun type_name :: "pyval \<Rightarrow> string" where
  "type_name PNone = ''NoneType''"
| "type_name (PBool b) = ''bool''"
| "type_name (PInt i) = ''int''"
| "type_name (PStr s) = ''str''"
| "type_name (PList xs) = ''list''"
| "type_name (PDict kvs) = ''dict''"

text \<open>\<open>str.isspace\<close> on one code point below U+0100.\<close>

definition py_isspace :: "char \<Rightarrow> bool" where
  "py_isspace c =
     (let n = (of_char c :: nat)
      in (9 \<le> n \<and> n \<le> 13) \<or> (28 \<le> n \<and> n \<le> 32) \<or> n = 133 \<or> n = 160)"

text \<open>\<open>s.strip()\<close>: leading and trailing whitespace removed.\<close>

definition strip :: "string \<Rightarrow> string" where
  "strip s = rev (dropWhile py_isspace (rev (dropWhile py_isspace s)))"

text \<open>\<open>s.startswith(p)\<close>.\<close>

definition startswith :: "string \<Rightarrow> string \<Rightarrow> bool" where
  "startswith s p = (take (length p) s = p)"

text \<open>\<open>s.split(c)\<close> for a separator of one character: never empty.\<close>

fun split_char :: "char \<Rightarrow> string \<Rightarrow> string list" where
  "split_char c [] = [[]]"
| "split_char c (x # xs) =
     (if x = c then [] # split_char c xs
      else (case split_char c xs of
              [] \<Rightarrow> [[x]]
            | l # ls \<Rightarrow> (x # l) # ls))"

text \<open>
  \<open>s.split(sep, 1)\<close> when \<open>sep\<close> occurs in \<open>s\<close>: the text before the first occurrence
  and the text after it.  \<open>None\<close> when \<open>sep\<close> does not occur, which is \<open>sep in s\<close> being
  false.
\<close>

fun split_once :: "string \<Rightarrow> string \<Rightarrow> (string \<times> string) option" where
  "split_once sep [] = (if sep = [] then Some ([], []) else None)"
| "split_once sep (x # xs) =
     (if take (length sep) (x # xs) = sep then Some ([], drop (length sep) (x # xs))
      else (case split_once sep xs of
              None \<Rightarrow> None
            | Some (before, after) \<Rightarrow> Some (x # before, after)))"

text \<open>\<open>str.lower\<close> on one code point below U+0100, and on a string.\<close>

definition lower_char :: "char \<Rightarrow> char" where
  "lower_char c =
     (let n = (of_char c :: nat)
      in if (65 \<le> n \<and> n \<le> 90) \<or> (192 \<le> n \<and> n \<le> 222 \<and> n \<noteq> 215)
         then char_of (n + 32) else c)"

definition lower :: "string \<Rightarrow> string" where
  "lower s = map lower_char s"

text \<open>\<open>str(n)\<close> for a non-negative \<open>int\<close>.\<close>

definition digit_char :: "nat \<Rightarrow> char" where
  "digit_char d = char_of (48 + d)"

fun show_nat :: "nat \<Rightarrow> string" where
  "show_nat n = (if n < 10 then [digit_char n] else show_nat (n div 10) @ [digit_char (n mod 10)])"

declare show_nat.simps [simp del]

section \<open>The validator's data model\<close>

record validation_issue =
  issue_type :: pyval
  description :: pyval
  location :: pyval
  severity :: pyval
  suggestions :: pyval

record validation_result =
  valid :: bool
  issues :: "validation_issue list"
  summary :: string

section \<open>Rule-based checks\<close>

definition missing_scene_headers_issue :: validation_issue where
  "missing_scene_headers_issue =
     \<lparr> issue_type = PStr ''missing_scene_headers'',
       description = PStr ''No standard scene headers (INT./EXT.) found'',
       location = PStr ''entire script'',
       severity = PStr ''medium'',
       suggestions = PList
         [PStr ''Add proper scene headers starting with INT. or EXT.'',
          PStr ''Format scene headings according to screenplay standards''] \<rparr>"

definition validate_scene_structure :: "string \<Rightarrow> string \<Rightarrow> validation_issue list" where
  "validate_scene_structure content file_type =
     (if file_type \<in> set [''.fdx'', ''.fountain'']
      then (let lines = split_char CHR 0x0A content;
                scene_headers =
                  filter (\<lambda>l. startswith (strip l) ''INT.'' \<or> startswith (strip l) ''EXT.'') lines
            in if scene_headers = [] then [] @ [missing_scene_headers_issue] else [])
      else [])"

definition validate_continuity :: "string \<Rightarrow> validation_issue list" where
  "validate_continuity content = []"

definition validate_character_consistency :: "string \<Rightarrow> validation_issue list" where
  "validate_character_consistency content = []"

section \<open>Analysis by the Gemini service\<close>

text \<open>
  \<open>self.gemini_model\<close> is \<open>None\<close> or a client object.  A client is modelled by what
  \<open>generate_content(prompt)\<close> does: it raises, or it returns a response whose \<open>text\<close>
  attribute raises or yields a string.  \<open>json.loads\<close> is the standard library's and is a
  parameter of the model: it raises or returns the decoded object.
\<close>

type_synonym gemini_response = "exn + string"

type_synonym gemini_model = "string \<Rightarrow> exn + gemini_response"

type_synonym json_loads = "string \<Rightarrow> exn + pyval"

text \<open>\<open>item.get(key, default)\<close>: only a \<open>dict\<close> has the method.\<close>

fun py_get :: "pyval \<Rightarrow> string \<Rightarrow> pyval \<Rightarrow> exn + pyval" where
  "py_get (PDict kvs) key dflt =
     Inr (case map_of kvs key of None \<Rightarrow> dflt | Some v \<Rightarrow> v)"
| "py_get v key dflt =
     Inl (Exn AttributeError
       ([CHR 0x27] @ type_name v @ [CHR 0x27] @ '' object has no attribute '' @
        [CHR 0x27] @ ''get'' @ [CHR 0x27]))"

text \<open>\<open>for item in v\<close>: the items a loop over \<open>v\<close> visits, or the \<open>TypeError\<close>.\<close>

fun py_iter :: "pyval \<Rightarrow> exn + pyval list" where
  "py_iter (PList xs) = Inr xs"
| "py_iter (PDict kvs) = Inr (map (\<lambda>kv. PStr (fst kv)) kvs)"
| "py_iter (PStr s) = Inr (map (\<lambda>c. PStr [c]) s)"
| "py_iter v =
     Inl (Exn TypeError ([CHR 0x27] @ type_name v @ [CHR 0x27] @ '' object is not iterable''))"

text \<open>
  The constructor call \<open>ValidationIssue(issue_type=item.get(...), ...)\<close>: the five
  arguments are evaluated in order and the first failing one raises.
\<close>

definition issue_of_item :: "pyval \<Rightarrow> exn + validation_issue" where
  "issue_of_item item =
     (case py_get item ''issue_type'' (PStr ''unknown'') of Inl e \<Rightarrow> Inl e | Inr t \<Rightarrow>
      case py_get item ''description'' (PStr ''No description provided'') of Inl e \<Rightarrow> Inl e | Inr d \<Rightarrow>
      case py_get item ''location'' (PStr ''unknown'') of Inl e \<Rightarrow> Inl e | Inr l \<Rightarrow>
      case py_get item ''severity'' (PStr ''medium'') of Inl e \<Rightarrow> Inl e | Inr s \<Rightarrow>
      case py_get item ''suggestions'' (PList []) of Inl e \<Rightarrow> Inl e | Inr g \<Rightarrow>
        Inr \<lparr> issue_type = t, description = d, location = l, severity = s, suggestions = g \<rparr>)"

text \<open>
  The loop \<open>for item in ...: issues.append(ValidationIssue(...))\<close> on the list
  \<open>issues\<close> built so far.  It returns the list as the loop leaves it and the pending
  exception, if one was raised: the issues appended before the failing item stay.
\<close>

fun append_items :: "validation_issue list \<Rightarrow> pyval list \<Rightarrow> validation_issue list \<times> exn option" where
  "append_items acc [] = (acc, None)"
| "append_items acc (item # rest) =
     (case issue_of_item item of
        Inl e \<Rightarrow> (acc, Some e)
      | Inr i \<Rightarrow> append_items (acc @ [i]) rest)"

definition fence_json :: string where
  "fence_json = [CHR 0x60, CHR 0x60, CHR 0x60] @ ''json''"

definition fence :: string where
  "fence = [CHR 0x60, CHR 0x60, CHR 0x60]"

text \<open>The text handed to \<open>json.loads\<close>: a fenced block if there is one, stripped.\<close>

definition extract_json_str :: "string \<Rightarrow> string" where
  "extract_json_str response_text =
     strip
       (case split_once fence_json response_text of
          Some (b1, a1) \<Rightarrow>
            (case split_once fence a1 of
               Some (b2, a2) \<Rightarrow> b2
             | None \<Rightarrow>
                 (case split_once fence response_text of
                    Some (b3, a3) \<Rightarrow>
                      (case split_once fence a3 of Some (b4, a4) \<Rightarrow> b4 | None \<Rightarrow> response_text)
                  | None \<Rightarrow> response_text))
        | None \<Rightarrow>
            (case split_once fence response_text of
               Some (b3, a3) \<Rightarrow>
                 (case split_once fence a3 of Some (b4, a4) \<Rightarrow> b4 | None \<Rightarrow> response_text)
             | None \<Rightarrow> response_text))"

text \<open>
  Lines 329 to 346: the decoded object is a list of entries, or a \<open>dict\<close> whose
  \<open>issues\<close> member is looped over; anything else adds nothing.
\<close>

definition convert_result ::
  "pyval \<Rightarrow> validation_issue list \<Rightarrow> validation_issue list \<times> exn option" where
  "convert_result result acc =
     (case result of
        PList items \<Rightarrow> append_items acc items
      | PDict kvs \<Rightarrow>
          (case map_of kvs ''issues'' of
             None \<Rightarrow> (acc, None)
           | Some v \<Rightarrow>
               (case py_iter v of
                  Inl e \<Rightarrow> (acc, Some e)
                | Inr items \<Rightarrow> append_items acc items))
      | _ \<Rightarrow> (acc, None))"

text \<open>
  The body of the inner \<open>try\<close>: read \<open>response.text\<close>, extract and decode the JSON,
  convert the entries.  The result is the list \<open>issues\<close> and the pending exception.
\<close>

definition parse_response ::
  "json_loads \<Rightarrow> gemini_response \<Rightarrow> validation_issue list \<Rightarrow> validation_issue list \<times> exn option" where
  "parse_response loads response acc =
     (case response of
        Inl e \<Rightarrow> (acc, Some e)
      | Inr response_text \<Rightarrow>
          (case loads (extract_json_str response_text) of
             Inl e \<Rightarrow> (acc, Some e)
           | Inr result \<Rightarrow> convert_result result acc))"

definition gemini_parsing_error :: validation_issue where
  "gemini_parsing_error =
     \<lparr> issue_type = PStr ''gemini_parsing_error'',
       description = PStr ''Error parsing Gemini analysis response'',
       location = PStr ''analysis system'',
       severity = PStr ''low'',
       suggestions = PList
         [PStr ''Check Gemini API service status'', PStr ''Try analyzing a shorter script''] \<rparr>"

definition gemini_analysis_error :: "exn \<Rightarrow> validation_issue" where
  "gemini_analysis_error e =
     \<lparr> issue_type = PStr ''gemini_analysis_error'',
       description = PStr (''Error during Gemini analysis: '' @ exn_str e),
       location = PStr ''analysis system'',
       severity = PStr ''low'',
       suggestions = PList
         [PStr ''Check Gemini API configuration'', PStr ''Verify API key is valid''] \<rparr>"

text \<open>
  \<open>try: body except Exception: handler\<close> on the state \<open>issues\<close>: the handler runs on
  the state the body left when an exception is pending, and may itself leave one.
\<close>

definition try_except ::
  "'s \<times> exn option \<Rightarrow> ('s \<Rightarrow> exn \<Rightarrow> 's \<times> exn option) \<Rightarrow> 's \<times> exn option" where
  "try_except body handler =
     (case body of (s, None) \<Rightarrow> (s, None) | (s, Some e) \<Rightarrow> handler s e)"

definition max_length :: nat where
  "max_length = 30000"

definition analysis_content_of :: "string \<Rightarrow> string" where
  "analysis_content_of content =
     (if length content > max_length then take max_length content @ ''...[truncated]''
      else content)"

definition prompt_of :: "string \<Rightarrow> string" where
  \<open>prompt_of analysis_content =
     concat (map (\<lambda>l. [CHR 0x0A] @ replicate 12 CHR 0x20 @ l)
       [''Analyze the following script content for potential issues:'',
        [],
        ''1. Identify continuity problems (e.g., objects appearing/disappearing, time inconsistencies)'',
        ''2. Check for character consistency issues'',
        ''3. Identify structural problems in the narrative'',
        ''4. Look for logical flaws or plot holes'',
        [],
        ''Respond in JSON format with found issues, each containing:'',
        ''- issue_type: The category of issue'',
        ''- description: Clear description of the problem'',
        ''- location: Where in the script the issue occurs'',
        ''- severity: "high", "medium", or "low"'',
        ''- suggestions: Array of suggestions to fix the issue'',
        [],
        ''Script content:'',
        analysis_content,
        []])\<close>

text \<open>
  \<open>_analyze_with_gemini\<close>.  The first component of the result is the list of prompts
  sent to the service; the second is the returned list, or the exception that leaves
  the method.
\<close>

definition analyze_with_gemini ::
  "gemini_model option \<Rightarrow> json_loads \<Rightarrow> string \<Rightarrow> string list \<times> (exn + validation_issue list)" where
  "analyze_with_gemini gemini_model loads content =
     (case gemini_model of
        None \<Rightarrow> ([], Inr [])
      | Some generate_content \<Rightarrow>
          (let prompt = prompt_of (analysis_content_of content);
               outcome =
                 try_except
                   (case generate_content prompt of
                      Inl e \<Rightarrow> ([], Some e)
                    | Inr response \<Rightarrow>
                        try_except (parse_response loads response [])
                          (\<lambda>acc e. (acc @ [gemini_parsing_error], None)))
                   (\<lambda>acc e. (acc @ [gemini_analysis_error e], None))
           in (case outcome of
                 (acc, None) \<Rightarrow> ([prompt], Inr acc)
               | (acc, Some e) \<Rightarrow> ([prompt], Inl e))))"

section \<open>The validation pipeline\<close>

definition empty_content_issue :: validation_issue where
  "empty_content_issue =
     \<lparr> issue_type = PStr ''empty_content'',
       description = PStr ''The script content is empty'',
       location = PStr ''entire file'',
       severity = PStr ''high'',
       suggestions = PList [PStr ''Add content to the script file''] \<rparr>"

text \<open>Lines 178 to 194: the validity flag, the summary and the result object.\<close>

definition build_result :: "validation_issue list \<Rightarrow> validation_result" where
  "build_result acc =
     (let valid_flag = (length (filter (\<lambda>i. severity i = PStr ''high'') acc) = 0);
          summary_text =
            (if acc = [] then ''No issues found in the script.''
             else (let high_count = length (filter (\<lambda>i. severity i = PStr ''high'') acc);
                       medium_count = length (filter (\<lambda>i. severity i = PStr ''medium'') acc);
                       low_count = length (filter (\<lambda>i. severity i = PStr ''low'') acc)
                   in ''Found '' @ show_nat (length acc) @ '' issues: '' @
                      show_nat high_count @ '' high, '' @ show_nat medium_count @ '' medium, '' @
                      show_nat low_count @ '' low severity.''))
      in \<lparr> valid = valid_flag, issues = acc, summary = summary_text \<rparr>)"

text \<open>
  \<open>validate_content\<close>.  As for \<open>analyze_with_gemini\<close>, the result carries the prompts
  sent to the service.
\<close>

definition validate_content ::
  "gemini_model option \<Rightarrow> json_loads \<Rightarrow> string \<Rightarrow> string \<Rightarrow> string list \<times> (exn + validation_result)" where
  "validate_content gemini_model loads content file_type =
     (if content = []
      then ([], Inr \<lparr> valid = False, issues = [] @ [empty_content_issue],
                      summary = ''Validation failed: Empty script content'' \<rparr>)
      else
        (let issues1 = [] @ validate_scene_structure content file_type;
             issues2 = issues1 @ validate_continuity content;
             issues3 = issues2 @ validate_character_consistency content
         in (case gemini_model of
               None \<Rightarrow> ([], Inr (build_result issues3))
             | Some g \<Rightarrow>
                 (case analyze_with_gemini gemini_model loads content of
                    (sent, Inl e) \<Rightarrow> (sent, Inl e)
                  | (sent, Inr gemini_issues) \<Rightarrow>
                      (sent, Inr (build_result (issues3 @ gemini_issues)))))))"

section \<open>Loading a file\<close>

text \<open>
  The file system as \<open>validate_file\<close> sees it: a path does not exist (\<open>None\<close>), or it
  exists and opening and reading it raises (a directory, a permission, a decoding
  error) or yields the text.
\<close>

type_synonym filesystem = "string \<Rightarrow> (exn + string) option"

text \<open>\<open>p.rfind(c)\<close>: the last index of \<open>c\<close> in \<open>p\<close>, or \<open>-1\<close>.\<close>

fun rfind :: "char \<Rightarrow> string \<Rightarrow> int" where
  "rfind c [] = -1"
| "rfind c (x # xs) =
     (let r = rfind c xs
      in if r \<ge> 0 then r + 1 else if x = c then 0 else -1)"

text \<open>
  The loop of \<open>genericpath._splitext\<close> that skips the leading dots of the file name:
  true when some character from \<open>filenameIndex\<close> up to \<open>dotIndex\<close> is not a dot.
\<close>

function has_name_before_dot :: "string \<Rightarrow> nat \<Rightarrow> nat \<Rightarrow> bool" where
  "has_name_before_dot p filenameIndex dotIndex =
     (if filenameIndex < dotIndex
      then (if take 1 (drop filenameIndex p) \<noteq> ''.'' then True
            else has_name_before_dot p (filenameIndex + 1) dotIndex)
      else False)"
  by pat_completeness auto
termination
  by (relation "measure (\<lambda>(p, filenameIndex, dotIndex). dotIndex - filenameIndex)") auto

declare has_name_before_dot.simps [simp del]

text \<open>\<open>os.path.splitext\<close> of \<open>posixpath\<close>: separator \<open>/\<close>, extension separator \<open>.\<close>.\<close>

definition splitext :: "string \<Rightarrow> string \<times> string" where
  "splitext p =
     (let sepIndex = rfind CHR ''/'' p;
          dotIndex = rfind CHR ''.'' p
      in if dotIndex > sepIndex \<and> has_name_before_dot p (nat (sepIndex + 1)) (nat dotIndex)
         then (take (nat dotIndex) p, drop (nat dotIndex) p)
         else (p, []))"

text \<open>Line 128: the file type is the extension of the path, in lower case.\<close>

definition file_ext_of :: "string \<Rightarrow> string" where
  "file_ext_of file_path = lower (snd (splitext file_path))"

definition validate_file ::
  "gemini_model option \<Rightarrow> json_loads \<Rightarrow> filesystem \<Rightarrow> string \<Rightarrow> string list \<times> (exn + validation_result)" where
  "validate_file gemini_model loads fs file_path =
     (case fs file_path of
        None \<Rightarrow> ([], Inl (Exn FileNotFoundError (''Script file not found: '' @ file_path)))
      | Some (Inl e) \<Rightarrow> ([], Inl e)
      | Some (Inr content) \<Rightarrow>
          (let file_ext = file_ext_of file_path
           in validate_content gemini_model loads content file_ext))"

section \<open>Reports\<close>

subsection \<open>\<open>json.dumps(obj, indent=2)\<close>\<close>

definition hex_digit :: "nat \<Rightarrow> char" where
  "hex_digit d = (if d < 10 then char_of (48 + d) else char_of (87 + d))"

text \<open>
  One character of a string under \<open>ensure_ascii\<close>: the printable ASCII characters
  other than the quote and the backslash stand for themselves.
\<close>

definition escape_char :: "char \<Rightarrow> string" where
  "escape_char c =
     (let n = (of_char c :: nat)
      in if c = CHR 0x5C then [CHR 0x5C, CHR 0x5C]
         else if c = CHR 0x22 then [CHR 0x5C, CHR 0x22]
         else if n = 8 then [CHR 0x5C, CHR ''b'']
         else if n = 12 then [CHR 0x5C, CHR ''f'']
         else if n = 10 then [CHR 0x5C, CHR ''n'']
         else if n = 13 then [CHR 0x5C, CHR ''r'']
         else if n = 9 then [CHR 0x5C, CHR ''t'']
         else if 32 \<le> n \<and> n \<le> 126 then [c]
         else [CHR 0x5C, CHR ''u'', CHR ''0'', CHR ''0'', hex_digit (n div 16), hex_digit (n mod 16)])"

definition encode_string :: "string \<Rightarrow> string" where
  "encode_string s = [CHR 0x22] @ concat (map escape_char s) @ [CHR 0x22]"

definition show_int :: "int \<Rightarrow> string" where
  "show_int i = (if i < 0 then ''-'' @ show_nat (nat (- i)) else show_nat (nat i))"

definition newline_indent :: "nat \<Rightarrow> string" where
  "newline_indent level = [CHR 0x0A] @ replicate (2 * level) CHR 0x20"

text \<open>\<open>sep.join(parts)\<close>.\<close>

fun join :: "string \<Rightarrow> string list \<Rightarrow> string" where
  "join sep [] = []"
| "join sep [x] = x"
| "join sep (x # y # ys) = x @ sep @ join sep (y # ys)"

text \<open>
  The encoder at nesting depth \<open>level\<close>: an empty container is \<open>[]\<close> or \<open>{}\<close>, the
  members of a non-empty one stand on lines of their own, two spaces deeper.
\<close>

fun dumps_at :: "nat \<Rightarrow> pyval \<Rightarrow> string" where
  "dumps_at level PNone = ''null''"
| "dumps_at level (PBool b) = (if b then ''true'' else ''false'')"
| "dumps_at level (PInt i) = show_int i"
| "dumps_at level (PStr s) = encode_string s"
| "dumps_at level (PList xs) =
     (if xs = [] then ''[]''
      else ''['' @ newline_indent (level + 1) @
           join ('','' @ newline_indent (level + 1)) (map (dumps_at (level + 1)) xs) @
           newline_indent level @ '']'')"
| "dumps_at level (PDict kvs) =
     (if kvs = [] then ''{}''
      else ''{'' @ newline_indent (level + 1) @
           join ('','' @ newline_indent (level + 1))
             (map (\<lambda>kv. encode_string (fst kv) @ '': '' @ dumps_at (level + 1) (snd kv)) kvs) @
           newline_indent level @ ''}'')"

definition json_dumps :: "pyval \<Rightarrow> string" where
  "json_dumps obj = dumps_at 0 obj"

subsection \<open>\<open>ValidationResult.get_report\<close>\<close>

text \<open>\<open>vars(issue)\<close>: the fields of the dataclass in declaration order.\<close>

definition vars_of :: "validation_issue \<Rightarrow> pyval" where
  "vars_of issue =
     PDict [(''issue_type'', issue_type issue), (''description'', description issue),
            (''location'', location issue), (''severity'', severity issue),
            (''suggestions'', suggestions issue)]"

definition report_object :: "validation_result \<Rightarrow> pyval" where
  "report_object r =
     PDict [(''valid'', PBool (valid r)),
            (''issues'', PList (map vars_of (issues r))),
            (''summary'', PStr (summary r))]"

text \<open>
  Two builtins of the interpreter are parameters of the HTML report: \<open>str(v)\<close> for an
  object that is not a string, and \<open>str.capitalize\<close>, whose result can leave the
  code points of the model.
\<close>

record py_builtins =
  str_of :: "pyval \<Rightarrow> string"
  capitalize :: "string \<Rightarrow> string"

text \<open>A replacement field \<open>{v}\<close> of an f-string.\<close>

definition format_value :: "py_builtins \<Rightarrow> pyval \<Rightarrow> string" where
  "format_value b v = (case v of PStr s \<Rightarrow> s | _ \<Rightarrow> str_of b v)"

text \<open>\<open>issue.severity.capitalize()\<close>: only a \<open>str\<close> has the method.\<close>

definition capitalize_value :: "py_builtins \<Rightarrow> pyval \<Rightarrow> exn + string" where
  "capitalize_value b v =
     (case v of
        PStr s \<Rightarrow> Inr (capitalize b s)
      | _ \<Rightarrow> Inl (Exn AttributeError
                 ([CHR 0x27] @ type_name v @ [CHR 0x27] @ '' object has no attribute '' @
                  [CHR 0x27] @ ''capitalize'' @ [CHR 0x27])))"

text \<open>The table row of one issue, lines 68 to 74.\<close>

definition issue_row :: "py_builtins \<Rightarrow> validation_issue \<Rightarrow> exn + string" where
  \<open>issue_row b issue =
     (case capitalize_value b (severity issue) of
        Inl e \<Rightarrow> Inl e
      | Inr cap \<Rightarrow>
          (case py_iter (suggestions issue) of
             Inl e \<Rightarrow> Inl e
           | Inr items \<Rightarrow>
               Inr (''<tr>'' @
                    ''<td>'' @ format_value b (issue_type issue) @ ''</td>'' @
                    ''<td>'' @ format_value b (description issue) @ ''</td>'' @
                    ''<td>'' @ format_value b (location issue) @ ''</td>'' @
                    ''<td class="'' @ format_value b (severity issue) @ ''">'' @ cap @ ''</td>'' @
                    ''<td><ul>'' @
                      concat (map (\<lambda>s. ''<li>'' @ format_value b s @ ''</li>'') items) @
                    ''</ul></td>'' @
                    ''</tr>'')))\<close>

text \<open>The loop over the issues: the rows in order, or the first exception.\<close>

fun issue_rows :: "py_builtins \<Rightarrow> validation_issue list \<Rightarrow> exn + string" where
  "issue_rows b [] = Inr []"
| "issue_rows b (issue # rest) =
     (case issue_row b issue of
        Inl e \<Rightarrow> Inl e
      | Inr row \<Rightarrow> (case issue_rows b rest of Inl e \<Rightarrow> Inl e | Inr rows \<Rightarrow> Inr (row @ rows)))"

definition html_report :: "py_builtins \<Rightarrow> validation_result \<Rightarrow> exn + string" where
  \<open>html_report b r =
     (let head =
            ''<html><head><title>Scene Validation Report</title>'' @
            ''<style>body{font-family:Arial;max-width:800px;margin:0 auto;padding:20px}'' @
            ''.valid{color:green}.invalid{color:red}'' @
            ''.high{color:red}.medium{color:orange}.low{color:blue}'' @
            ''table{width:100%;border-collapse:collapse}'' @
            ''td,th{border:1px solid #ddd;padding:8px}</style></head><body>'' @
            ''<h1>Scene Validation Report</h1>'' @
            ''<h2 class="'' @ (if valid r then ''valid'' else ''invalid'') @ ''">Status: '' @
              (if valid r then ''Valid'' else ''Invalid'') @ ''</h2>'' @
            ''<h3>Summary</h3><p>'' @ summary r @ ''</p>''
      in if issues r \<noteq> []
         then (case issue_rows b (issues r) of
                 Inl e \<Rightarrow> Inl e
               | Inr rows \<Rightarrow>
                   Inr (head @ ''<h3>Issues</h3><table>'' @
                        ''<tr><th>Type</th><th>Description</th><th>Location</th><th>Severity</th><th>Suggestions</th></tr>'' @
                        rows @ ''</table>'' @ ''</body></html>''))
         else Inr (head @ ''<p>No issues found!</p>'' @ ''</body></html>''))\<close>

definition get_report :: "py_builtins \<Rightarrow> validation_result \<Rightarrow> string \<Rightarrow> exn + string" where
  "get_report b r format =
     (if lower format = ''json'' then Inr (json_dumps (report_object r))
      else if lower format = ''html'' then html_report b r
      else Inl (Exn ValueError (''Unsupported report format: '' @ format)))"

section \<open>The tools updater\<close>

text \<open>
  What a run of \<open>update_tools.py\<close> does to its surroundings: the records it hands to
  the logger and the files it writes, in order.  The surroundings give the clock
  readings as the formatted texts the script uses, and say whether opening a file for
  writing raises.
\<close>

datatype log_level = INFO | WARNING | ERROR

record world =
  log_records :: "(log_level \<times> string) list"
  written :: "(string \<times> string) list"

record surroundings =
  today :: string
  timestamp :: string
  elapsed :: string
  open_error :: "string \<Rightarrow> exn option"

text \<open>The updater object: of its attributes only \<open>dry_run\<close> is read by the methods.\<close>

record tools_updater =
  dry_run :: bool

text \<open>A row of the tracking sheet: a \<open>dict\<close> from column names to texts.\<close>

type_synonym tool = "(string \<times> string) list"

record stats =
  tools_updated :: nat
  docs_updated :: nat
  code_updated :: nat
  errors :: nat
  new_tools :: nat
  tools_processed :: nat

definition logger :: "log_level \<Rightarrow> string \<Rightarrow> world \<Rightarrow> world" where
  "logger lvl msg w = w\<lparr> log_records := log_records w @ [(lvl, msg)] \<rparr>"

text \<open>\<open>tool[key]\<close>: the value, or \<open>KeyError\<close> whose text is the quoted key.\<close>

definition getitem :: "tool \<Rightarrow> string \<Rightarrow> exn + string" where
  "getitem t key =
     (case map_of t key of
        None \<Rightarrow> Inl (Exn KeyError ([CHR 0x27] @ key @ [CHR 0x27]))
      | Some v \<Rightarrow> Inr v)"

text \<open>\<open>tool.get(key)\<close> used as a condition: present and not empty.\<close>

definition truthy_get :: "tool \<Rightarrow> string \<Rightarrow> bool" where
  "truthy_get t key = (case map_of t key of None \<Rightarrow> False | Some v \<Rightarrow> v \<noteq> [])"

definition update_documentation :: "tools_updater \<Rightarrow> tool \<Rightarrow> world \<Rightarrow> (exn + bool) \<times> world" where
  "update_documentation u t w =
     (case getitem t ''Tool Name'' of
        Inl e \<Rightarrow> (Inl e, w)
      | Inr name \<Rightarrow>
          (let w1 = logger INFO (''Updating documentation for '' @ name) w
           in if dry_run u
              then (Inr False, logger INFO (''[DRY RUN] Would update documentation for '' @ name) w1)
              else (Inr True, logger INFO (''Documentation updated for '' @ name) w1)))"

definition ensure_tool_directory :: "tools_updater \<Rightarrow> tool \<Rightarrow> world \<Rightarrow> (exn + bool) \<times> world" where
  "ensure_tool_directory u t w =
     (case map_of t ''Repository Path'' of
        None \<Rightarrow> (Inr False, w)
      | Some repo_path \<Rightarrow>
          (if repo_path = [] then (Inr False, w)
           else if dry_run u
           then (Inr False, logger INFO (''[DRY RUN] Would ensure directory exists: '' @ repo_path) w)
           else (Inr True, logger INFO (''Ensured directory exists: '' @ repo_path) w)))"

definition update_tool_code :: "tools_updater \<Rightarrow> tool \<Rightarrow> world \<Rightarrow> (exn + bool) \<times> world" where
  "update_tool_code u t w =
     (case getitem t ''Tool Name'' of
        Inl e \<Rightarrow> (Inl e, w)
      | Inr name \<Rightarrow>
          (let w1 = logger INFO (''Updating code for '' @ name) w
           in if dry_run u
              then (Inr False, logger INFO (''[DRY RUN] Would update code for '' @ name) w1)
              else (Inr True, logger INFO (''Code updated for '' @ name) w1)))"

definition update_last_updated ::
  "tools_updater \<Rightarrow> surroundings \<Rightarrow> tool \<Rightarrow> world \<Rightarrow> (exn + bool) \<times> world" where
  "update_last_updated u env t w =
     (case getitem t ''Tool Name'' of
        Inl e \<Rightarrow> (Inl e, w)
      | Inr name \<Rightarrow>
          (let w1 = logger INFO
                 (''Updating last updated timestamp for '' @ name @ '' to '' @ today env) w
           in if dry_run u
              then (Inr False, logger INFO (''[DRY RUN] Would update timestamp for '' @ name) w1)
              else (Inr True, logger INFO (''Timestamp updated for '' @ name) w1)))"

text \<open>
  The body of the \<open>try\<close> in the loop of \<open>update_tools\<close>, on the statistics and the
  world: the pending exception, if any, and the state the body left.
\<close>

definition process_tool ::
  "tools_updater \<Rightarrow> surroundings \<Rightarrow> tool \<Rightarrow> stats \<times> world \<Rightarrow> exn option \<times> stats \<times> world" where
  "process_tool u env t sw =
     (let st = fst sw; w = snd sw
      in case getitem t ''Tool Name'' of
           Inl e \<Rightarrow> (Some e, st, w)
         | Inr name \<Rightarrow>
             (let w1 = logger INFO (''Processing tool: '' @ name) w
              in case (if truthy_get t ''Documentation URL''
                       then (case update_documentation u t w1 of
                               (Inl e, w2) \<Rightarrow> (Some e, st, w2)
                             | (Inr True, w2) \<Rightarrow> (None, st\<lparr> docs_updated := docs_updated st + 1 \<rparr>, w2)
                             | (Inr False, w2) \<Rightarrow> (None, st, w2))
                       else (None, st, w1)) of
                   (Some e, st2, w2) \<Rightarrow> (Some e, st2, w2)
                 | (None, st2, w2) \<Rightarrow>
                     (case (if truthy_get t ''Repository Path''
                            then (case ensure_tool_directory u t w2 of
                                    (Inl e, w3) \<Rightarrow> (Some e, st2, w3)
                                  | (Inr created, w3) \<Rightarrow>
                                      (let st3 = (if created
                                                  then st2\<lparr> tools_updated := tools_updated st2 + 1 \<rparr>
                                                  else st2)
                                       in case update_tool_code u t w3 of
                                            (Inl e, w4) \<Rightarrow> (Some e, st3, w4)
                                          | (Inr True, w4) \<Rightarrow>
                                              (None, st3\<lparr> code_updated := code_updated st3 + 1 \<rparr>, w4)
                                          | (Inr False, w4) \<Rightarrow> (None, st3, w4)))
                            else (None, st2, w2)) of
                        (Some e, st4, w4) \<Rightarrow> (Some e, st4, w4)
                      | (None, st4, w4) \<Rightarrow>
                          (if \<not> dry_run u
                           then (case update_last_updated u env t w4 of
                                   (Inl e, w5) \<Rightarrow> (Some e, st4, w5)
                                 | (Inr b, w5) \<Rightarrow> (None, st4, w5))
                           else (None, st4, w4)))))"

text \<open>
  The \<open>except Exception\<close> clause of the loop: the log call reads \<open>tool['Tool Name']\<close>
  again, so it can raise in its turn, before the error is counted.
\<close>

definition process_tool_handler :: "tool \<Rightarrow> stats \<times> world \<Rightarrow> exn \<Rightarrow> exn option \<times> stats \<times> world" where
  "process_tool_handler t sw e =
     (let st = fst sw; w = snd sw
      in case getitem t ''Tool Name'' of
           Inl e2 \<Rightarrow> (Some e2, st, w)
         | Inr name \<Rightarrow>
             (None, st\<lparr> errors := errors st + 1 \<rparr>,
              logger ERROR (''Error updating tool '' @ name @ '': '' @ exn_str e) w))"

fun update_tools_loop ::
  "tools_updater \<Rightarrow> surroundings \<Rightarrow> tool list \<Rightarrow> stats \<times> world \<Rightarrow> exn option \<times> stats \<times> world" where
  "update_tools_loop u env [] sw = (None, fst sw, snd sw)"
| "update_tools_loop u env (t # rest) sw =
     (case (case process_tool u env t sw of
              (None, st, w) \<Rightarrow> (None, st, w)
            | (Some e, st, w) \<Rightarrow> process_tool_handler t (st, w) e) of
        (Some e, st, w) \<Rightarrow> (Some e, st, w)
      | (None, st, w) \<Rightarrow> update_tools_loop u env rest (st, w))"

definition update_tools ::
  "tools_updater \<Rightarrow> surroundings \<Rightarrow> tool list \<Rightarrow> world \<Rightarrow> (exn + stats) \<times> world" where
  "update_tools u env tools_data w =
     (let st0 = \<lparr> tools_updated = 0, docs_updated = 0, code_updated = 0, errors = 0,
                  new_tools = 0, tools_processed = length tools_data \<rparr>
      in case update_tools_loop u env tools_data (st0, w) of
           (Some e, st, w1) \<Rightarrow> (Inl e, w1)
         | (None, st, w1) \<Rightarrow> (Inr st, w1))"

definition SPREADSHEET_ID :: string where
  "SPREADSHEET_ID = ''1PR2yfkXdBnM4texzan_nBj79H9Fe_jpvaSZhBGuwTow''"

definition get_tools_data :: "world \<Rightarrow> tool list \<times> world" where
  "get_tools_data w =
     (let w1 = logger INFO (''Retrieving tool data from spreadsheet '' @ SPREADSHEET_ID) w;
          tools_data =
            [[(''Tool ID'', ''T001''),
              (''Tool Name'', ''SceneValidator''),
              (''Description'',
               ''Validates scene structure and continuity in scripts and media projects''),
              (''Dependencies'', ''Gemini API, Google Cloud Storage (optional)''),
              (''Last Updated'', ''2025-06-21''),
              (''Repository Path'', ''tools/SceneValidator''),
              (''Documentation URL'',
               ''https://docs.google.com/document/d/1H92VkAMqgW06w0sA0805nQ5FOTnCjeJ2rhIQRJ8gIp8''),
              (''Integration Points'', ''StoryboardGen, ContinuityTracker, TimelineAssembler''),
              (''Primary Technology'', ''Python + Gemini API''),
              (''Implementation Status'', ''In Progress'')]]
      in (tools_data,
          logger INFO (''Retrieved data for '' @ show_nat (length tools_data) @ '' tools'') w1))"

text \<open>
  The two pictographs of the report lie beyond U+00FF; they are given by their
  UTF-8 bytes.
\<close>

definition warning_sign :: string where
  "warning_sign = [CHR 0xE2, CHR 0x9A, CHR 0xA0, CHR 0xEF, CHR 0xB8, CHR 0x8F]"

definition check_mark :: string where
  "check_mark = [CHR 0xE2, CHR 0x9C, CHR 0x85]"

definition generate_summary_report :: "surroundings \<Rightarrow> stats \<Rightarrow> string" where
  "generate_summary_report env st =
     ''# Media Automation Tools Update Report'' @ [CHR 0x0A, CHR 0x0A] @
     ''**Generated:** '' @ timestamp env @ [CHR 0x0A, CHR 0x0A] @
     ''## Update Statistics'' @ [CHR 0x0A, CHR 0x0A] @
     ''- **Tools Processed:** '' @ show_nat (tools_processed st) @ [CHR 0x0A] @
     ''- **Tools Updated:** '' @ show_nat (tools_updated st) @ [CHR 0x0A] @
     ''- **Documentation Updated:** '' @ show_nat (docs_updated st) @ [CHR 0x0A] @
     ''- **Code Updated:** '' @ show_nat (code_updated st) @ [CHR 0x0A] @
     ''- **New Tools Added:** '' @ show_nat (new_tools st) @ [CHR 0x0A] @
     ''- **Errors Encountered:** '' @ show_nat (errors st) @ [CHR 0x0A, CHR 0x0A] @
     (if errors st > 0
      then warning_sign @
           '' Some errors were encountered during the update process. Check the logs for details.'' @
           [CHR 0x0A, CHR 0x0A]
      else check_mark @ '' Update completed successfully with no errors.'' @ [CHR 0x0A, CHR 0x0A]) @
     ''## Details'' @ [CHR 0x0A, CHR 0x0A] @
     ''For detailed information about each tool, please refer to the [tracking spreadsheet](https://docs.google.com/spreadsheets/d/1PR2yfkXdBnM4texzan_nBj79H9Fe_jpvaSZhBGuwTow).'' @
     [CHR 0x0A, CHR 0x0A]"

definition send_den_message :: "tools_updater \<Rightarrow> string \<Rightarrow> world \<Rightarrow> bool \<times> world" where
  "send_den_message u summary_text w =
     (let w1 = logger INFO ''Sending summary message to Den'' w
      in if dry_run u
         then (False, logger INFO (''[DRY RUN] Would send message to Den:'' @ [CHR 0x0A] @ summary_text) w1)
         else (True, logger INFO ''Summary message sent to Den'' w1))"

text \<open>\<open>with open(path, 'w') as f: f.write(text)\<close>.\<close>

definition write_file :: "surroundings \<Rightarrow> string \<Rightarrow> string \<Rightarrow> world \<Rightarrow> exn option \<times> world" where
  "write_file env path text w =
     (case open_error env path of
        Some e \<Rightarrow> (Some e, w)
      | None \<Rightarrow> (None, w\<lparr> written := written w @ [(path, text)] \<rparr>))"

text \<open>\<open>run\<close>: the exception that leaves it, if any, and the world afterwards.\<close>

definition run :: "tools_updater \<Rightarrow> surroundings \<Rightarrow> world \<Rightarrow> exn option \<times> world" where
  "run u env w =
     (let w0 = logger INFO ''Starting tools update process'' w;
          body =
            (case get_tools_data w0 of
               (tools_data, w1) \<Rightarrow>
                 (case update_tools u env tools_data w1 of
                    (Inl e, w2) \<Rightarrow> (Some e, w2)
                  | (Inr st, w2) \<Rightarrow>
                      (let summary_text = generate_summary_report env st
                       in case send_den_message u summary_text w2 of
                            (sent, w3) \<Rightarrow>
                              (case write_file env ''last_update_summary.md'' summary_text w3 of
                                 (Some e, w4) \<Rightarrow> (Some e, w4)
                               | (None, w4) \<Rightarrow>
                                   (None,
                                    logger INFO
                                      (''Update process completed in '' @ elapsed env @ '' seconds'')
                                      w4)))))
      in case body of
           (None, w5) \<Rightarrow> (None, w5)
         | (Some e, w5) \<Rightarrow> (Some e, logger ERROR (''Error in update process: '' @ exn_str e) w5))"

section \<open>Reading a JSON text back\<close>

text \<open>
  A reader for JSON texts, used to parse a report again: white space is skipped
  between the tokens, strings are read with their escapes, numbers are the integers
  of the model (a fraction or an exponent is rejected, as is an escape beyond U+00FF),
  and an object becomes a \<open>dict\<close>, in which a repeated key keeps its first place and
  takes the last value.  The first argument of the three mutually recursive functions
  bounds the number of nested calls; \<open>json_loads\<close> starts with the length of the
  text, which is enough for every text that \<open>json_dumps\<close> writes.  The reader has
  the type of the decoder that \<open>_analyze_with_gemini\<close> takes as a parameter.
\<close>

definition is_ws :: "char \<Rightarrow> bool" where
  "is_ws c = (c = CHR 0x20 \<or> c = CHR 0x09 \<or> c = CHR 0x0A \<or> c = CHR 0x0D)"

definition skip_ws :: "string \<Rightarrow> string" where
  "skip_ws s = dropWhile is_ws s"

definition is_digit :: "char \<Rightarrow> bool" where
  "is_digit c = (48 \<le> (of_char c :: nat) \<and> (of_char c :: nat) \<le> 57)"

definition hex_value :: "char \<Rightarrow> nat option" where
  "hex_value c =
     (let n = (of_char c :: nat)
      in if 48 \<le> n \<and> n \<le> 57 then Some (n - 48)
         else if 97 \<le> n \<and> n \<le> 102 then Some (n - 87)
         else if 65 \<le> n \<and> n \<le> 70 then Some (n - 55)
         else None)"

text \<open>The character that follows a backslash, other than \<open>u\<close>.\<close>

definition unescape :: "char \<Rightarrow> char option" where
  "unescape c =
     (if c = CHR 0x22 then Some (CHR 0x22)
      else if c = CHR 0x5C then Some (CHR 0x5C)
      else if c = CHR ''/'' then Some (CHR ''/'')
      else if c = CHR ''b'' then Some (CHR 0x08)
      else if c = CHR ''f'' then Some (CHR 0x0C)
      else if c = CHR ''n'' then Some (CHR 0x0A)
      else if c = CHR ''r'' then Some (CHR 0x0D)
      else if c = CHR ''t'' then Some (CHR 0x09)
      else None)"

text \<open>The four hexadecimal digits of a \<open>\u\<close> escape.\<close>

definition unicode_escape :: "char \<Rightarrow> char \<Rightarrow> char \<Rightarrow> char \<Rightarrow> char option" where
  "unicode_escape h1 h2 h3 h4 =
     (case (hex_value h1, hex_value h2, hex_value h3, hex_value h4) of
        (Some a, Some b, Some c, Some d) \<Rightarrow>
          (if a = 0 \<and> b = 0 then Some (char_of (16 * c + d)) else None)
      | _ \<Rightarrow> None)"

text \<open>
  The text of a string after its opening quote: the characters up to the closing
  quote, and what follows it.
\<close>

fun scan_string :: "string \<Rightarrow> (string \<times> string) option" where
  "scan_string [] = None"
| "scan_string (c # cs) =
     (if c = CHR 0x22 then Some ([], cs)
      else if c = CHR 0x5C then
        (case cs of
           [] \<Rightarrow> None
         | e # cs1 \<Rightarrow>
             (if e = CHR ''u'' then
                (case cs1 of
                   h1 # h2 # h3 # h4 # cs2 \<Rightarrow>
                     (case unicode_escape h1 h2 h3 h4 of
                        None \<Rightarrow> None
                      | Some ch \<Rightarrow>
                          (case scan_string cs2 of
                             None \<Rightarrow> None
                           | Some (str, rest) \<Rightarrow> Some (ch # str, rest)))
                 | _ \<Rightarrow> None)
              else
                (case unescape e of
                   None \<Rightarrow> None
                 | Some ch \<Rightarrow>
                     (case scan_string cs1 of
                        None \<Rightarrow> None
                      | Some (str, rest) \<Rightarrow> Some (ch # str, rest)))))
      else if (of_char c :: nat) < 32 then None
      else (case scan_string cs of
              None \<Rightarrow> None
            | Some (str, rest) \<Rightarrow> Some (c # str, rest)))"

definition digits_value :: "string \<Rightarrow> nat" where
  "digits_value ds = foldl (\<lambda>acc c. 10 * acc + ((of_char c :: nat) - 48)) 0 ds"

text \<open>
  An integer: an optional minus sign, then \<open>0\<close> or a digit other than \<open>0\<close> followed
  by digits.  A following \<open>.\<close>, \<open>e\<close> or \<open>E\<close> would make it a floating-point number.
\<close>

definition scan_number :: "string \<Rightarrow> (pyval \<times> string) option" where
  "scan_number s =
     (let negative = (take 1 s = ''-'');
          t = (if negative then drop 1 s else s);
          ds = (if take 1 t = ''0'' then ''0'' else takeWhile is_digit t);
          rest = drop (length ds) t
      in if ds = [] then None
         else if take 1 rest = ''.'' \<or> take 1 rest = ''e'' \<or> take 1 rest = ''E'' then None
         else Some (PInt (if negative then - int (digits_value ds) else int (digits_value ds)),
                    rest))"

text \<open>\<open>d[key] = value\<close> on a \<open>dict\<close> kept in insertion order.\<close>

fun dict_set :: "string \<Rightarrow> pyval \<Rightarrow> (string \<times> pyval) list \<Rightarrow> (string \<times> pyval) list" where
  "dict_set key v [] = [(key, v)]"
| "dict_set key v (kv # kvs) =
     (if fst kv = key then (key, v) # kvs else kv # dict_set key v kvs)"

fun parse_value :: "nat \<Rightarrow> string \<Rightarrow> (pyval \<times> string) option"
  and parse_elements :: "nat \<Rightarrow> pyval list \<Rightarrow> string \<Rightarrow> (pyval list \<times> string) option"
  and parse_members ::
    "nat \<Rightarrow> (string \<times> pyval) list \<Rightarrow> string \<Rightarrow> ((string \<times> pyval) list \<times> string) option"
where
  "parse_value 0 s = None"
| "parse_value (Suc n) s =
     (if take 1 s = [CHR 0x22] then
        (case scan_string (drop 1 s) of
           None \<Rightarrow> None
         | Some (str, rest) \<Rightarrow> Some (PStr str, rest))
      else if take 1 s = ''['' then
        (let t = skip_ws (drop 1 s)
         in if take 1 t = '']'' then Some (PList [], drop 1 t)
            else (case parse_elements n [] t of
                    None \<Rightarrow> None
                  | Some (xs, rest) \<Rightarrow> Some (PList xs, rest)))
      else if take 1 s = ''{'' then
        (let t = skip_ws (drop 1 s)
         in if take 1 t = ''}'' then Some (PDict [], drop 1 t)
            else (case parse_members n [] t of
                    None \<Rightarrow> None
                  | Some (kvs, rest) \<Rightarrow> Some (PDict kvs, rest)))
      else if take 4 s = ''null'' then Some (PNone, drop 4 s)
      else if take 4 s = ''true'' then Some (PBool True, drop 4 s)
      else if take 5 s = ''false'' then Some (PBool False, drop 5 s)
      else scan_number s)"
| "parse_elements 0 acc s = None"
| "parse_elements (Suc n) acc s =
     (case parse_value n s of
        None \<Rightarrow> None
      | Some (v, rest) \<Rightarrow>
          (let t = skip_ws rest
           in if take 1 t = '','' then parse_elements n (acc @ [v]) (skip_ws (drop 1 t))
              else if take 1 t = '']'' then Some (acc @ [v], drop 1 t)
              else None))"
| "parse_members 0 acc s = None"
| "parse_members (Suc n) acc s =
     (if take 1 s = [CHR 0x22] then
        (case scan_string (drop 1 s) of
           None \<Rightarrow> None
         | Some (key, rest) \<Rightarrow>
             (let t = skip_ws rest
              in if take 1 t = '':'' then
                   (case parse_value n (skip_ws (drop 1 t)) of
                      None \<Rightarrow> None
                    | Some (v, rest2) \<Rightarrow>
                        (let t2 = skip_ws rest2
                         in if take 1 t2 = '','' then
                              parse_members n (dict_set key v acc) (skip_ws (drop 1 t2))
                            else if take 1 t2 = ''}'' then Some (dict_set key v acc, drop 1 t2)
                            else None))
                 else None))
      else None)"

definition json_loads :: json_loads where
  "json_loads s =
     (case parse_value (length s) (skip_ws s) of
        None \<Rightarrow> Inl (Exn (OtherException ''JSONDecodeError'') ''Expecting value'')
      | Some (v, rest) \<Rightarrow>
          (if skip_ws rest = [] then Inr v
           else Inl (Exn (OtherException ''JSONDecodeError'') ''Extra data'')))"

text \<open>
  The object that reading an encoded object back gives: every \<open>dict\<close> in it is
  rebuilt key by key.  An object whose \<open>dict\<close>s have no repeated key, as all objects
  of the interpreter, is left as it is.
\<close>

fun rebuilt :: "pyval \<Rightarrow> pyval" where
  "rebuilt PNone = PNone"
| "rebuilt (PBool b) = PBool b"
| "rebuilt (PInt i) = PInt i"
| "rebuilt (PStr s) = PStr s"
| "rebuilt (PList xs) = PList (map rebuilt xs)"
| "rebuilt (PDict kvs) =
     PDict (foldl (\<lambda>acc kv. dict_set (fst kv) (rebuilt (snd kv)) acc) [] kvs)"

text \<open>
  The number of nested calls that reading the encoding of an object takes at most.
\<close>

fun calls :: "pyval \<Rightarrow> nat" where
  "calls PNone = 1"
| "calls (PBool b) = 1"
| "calls (PInt i) = 1"
| "calls (PStr s) = 1"
| "calls (PList xs) = Suc (length xs + sum_list (map calls xs))"
| "calls (PDict kvs) = Suc (length kvs + sum_list (map (\<lambda>kv. calls (snd kv)) kvs))"

text \<open>What may follow a value in an encoded text: nothing, a comma or a line feed.\<close>

definition delimited :: "string \<Rightarrow> bool" where
  "delimited rest = (rest = [] \<or> take 1 rest = '','' \<or> take 1 rest = [CHR 0x0A])"

section \<open>Notions of the specification\<close>

text \<open>
  What a reader of a parsed report looks at: the member \<open>valid\<close> of the document, and
  the number of entries of its member \<open>issues\<close> whose \<open>severity\<close> is a given text.
\<close>

definition parsed_valid :: "pyval \<Rightarrow> pyval option" where
  "parsed_valid doc = (case doc of PDict kvs \<Rightarrow> map_of kvs ''valid'' | _ \<Rightarrow> None)"

definition entry_severity :: "pyval \<Rightarrow> pyval option" where
  "entry_severity entry = (case entry of PDict kvs \<Rightarrow> map_of kvs ''severity'' | _ \<Rightarrow> None)"

definition parsed_count :: "string \<Rightarrow> pyval \<Rightarrow> nat option" where
  "parsed_count s doc =
     (case doc of
        PDict kvs \<Rightarrow>
          (case map_of kvs ''issues'' of
             Some (PList entries) \<Rightarrow>
               Some (length (filter (\<lambda>entry. entry_severity entry = Some (PStr s)) entries))
           | _ \<Rightarrow> None)
      | _ \<Rightarrow> None)"

text \<open>The number of issues of one severity, recomputed from a list of issues.\<close>

definition count_severity :: "string \<Rightarrow> validation_issue list \<Rightarrow> nat" where
  "count_severity s acc = length (filter (\<lambda>i. severity i = PStr s) acc)"

text \<open>
  The sentence that restates the counts by severity (total, high, medium, low) of a
  list of issues.
\<close>

definition counts_sentence :: "validation_issue list \<Rightarrow> string" where
  "counts_sentence acc =
     ''Found '' @ show_nat (length acc) @ '' issues: '' @
     show_nat (count_severity ''high'' acc) @ '' high, '' @
     show_nat (count_severity ''medium'' acc) @ '' medium, '' @
     show_nat (count_severity ''low'' acc) @ '' low severity.''"

text \<open>Some line of the content, trimmed, starts with \<open>INT.\<close> or \<open>EXT.\<close>.\<close>

definition has_scene_header :: "string \<Rightarrow> bool" where
  "has_scene_header content =
     (\<exists>l \<in> set (split_char CHR 0x0A content).
        startswith (strip l) ''INT.'' \<or> startswith (strip l) ''EXT.'')"

text \<open>The decimal digits that occur in a text.\<close>

definition digits_of :: "string \<Rightarrow> string" where
  "digits_of s = filter (\<lambda>c. c \<in> set ''0123456789'') s"

text \<open>The objects that are strings, and those a \<open>for\<close> loop accepts.\<close>

definition is_str :: "pyval \<Rightarrow> bool" where
  "is_str v = (case v of PStr s \<Rightarrow> True | _ \<Rightarrow> False)"

definition is_iterable :: "pyval \<Rightarrow> bool" where
  "is_iterable v = (case v of PStr s \<Rightarrow> True | PList xs \<Rightarrow> True | PDict kvs \<Rightarrow> True | _ \<Rightarrow> False)"

section \<open>Example inputs\<close>

text \<open>\<open>json.loads\<close> on a text that is not JSON.\<close>

definition loads_rejecting :: json_loads where
  "loads_rejecting s =
     Inl (Exn (OtherException ''JSONDecodeError'') ''Expecting value: line 1 column 1 (char 0)'')"

text \<open>A service that answers with prose, and one whose connection fails.\<close>

definition gemini_prose :: gemini_model where
  "gemini_prose prompt = Inr (Inr ''not valid JSON'')"

definition gemini_down :: gemini_model where
  "gemini_down prompt = Inl (Exn (OtherException ''ConnectionError'') ''connection refused'')"

text \<open>
  A service that answers with one entry whose severity is \<open>null\<close>, and \<open>json.loads\<close>
  at that answer.
\<close>

definition null_severity_text :: string where
  \<open>null_severity_text = ''[{"issue_type": "pacing", "severity": null}]''\<close>

definition gemini_null_severity :: gemini_model where
  "gemini_null_severity prompt = Inr (Inr null_severity_text)"

definition loads_null_severity :: json_loads where
  "loads_null_severity s =
     (if s = null_severity_text
      then Inr (PList [PDict [(''issue_type'', PStr ''pacing''), (''severity'', PNone)]])
      else loads_rejecting s)"

definition null_severity_result :: validation_result where
  "null_severity_result =
     \<lparr> valid = True,
       issues = [\<lparr> issue_type = PStr ''pacing'',
                   description = PStr ''No description provided'',
                   location = PStr ''unknown'',
                   severity = PNone,
                   suggestions = PList [] \<rparr>],
       summary = ''Found 1 issues: 0 high, 0 medium, 0 low severity.'' \<rparr>"

text \<open>The scenario of the specification: prose without scene markers.\<close>

definition prose :: string where
  "prose = ''Just some prose, no scene markers.''"

definition screenplay :: string where
  "screenplay = ''FADE IN:'' @ [CHR 0x0A] @ ''  INT. KITCHEN - DAY'' @ [CHR 0x0A] @ ''Rain.''"

definition prose_result :: validation_result where
  "prose_result =
     \<lparr> valid = True, issues = [missing_scene_headers_issue],
       summary = ''Found 1 issues: 0 high, 1 medium, 0 low severity.'' \<rparr>"

definition empty_result :: validation_result where
  "empty_result =
     \<lparr> valid = False, issues = [empty_content_issue],
       summary = ''Validation failed: Empty script content'' \<rparr>"

text \<open>
  Stand-ins for the two builtins of the HTML report: exact on \<open>None\<close>, \<open>bool\<close>,
  \<open>int\<close> and on strings of ASCII letters, which is all the examples use.
\<close>

definition upper_ascii :: "char \<Rightarrow> char" where
  "upper_ascii c =
     (let n = (of_char c :: nat) in if 97 \<le> n \<and> n \<le> 122 then char_of (n - 32) else c)"

definition plain_builtins :: py_builtins where
  "plain_builtins =
     \<lparr> str_of = (\<lambda>v. case v of
                         PNone \<Rightarrow> ''None''
                       | PBool b \<Rightarrow> (if b then ''True'' else ''False'')
                       | PInt i \<Rightarrow> show_int i
                       | PStr s \<Rightarrow> s
                       | PList xs \<Rightarrow> ''[...]''
                       | PDict kvs \<Rightarrow> ''{...}''),
       capitalize = (\<lambda>s. case s of [] \<Rightarrow> [] | c # cs \<Rightarrow> upper_ascii c # lower cs) \<rparr>"

text \<open>A directory with a script without extension, a screenplay and a folder.\<close>

definition example_fs :: filesystem where
  "example_fs path =
     (if path = ''README'' then Some (Inr prose)
      else if path = ''drafts/Pilot.FOUNTAIN'' then Some (Inr prose)
      else if path = ''drafts'' then Some (Inl (Exn (OtherException ''IsADirectoryError'')
                                                ''[Errno 21] Is a directory: drafts''))
      else None)"

text \<open>A clock reading, a writable directory, and the world before the run.\<close>

definition example_env :: surroundings where
  "example_env =
     \<lparr> today = ''2025-06-22'', timestamp = ''2025-06-22 10:00:00'', elapsed = ''0.00'',
       open_error = (\<lambda>path. None) \<rparr>"

definition initial_world :: world where
  "initial_world = \<lparr> log_records = [], written = [] \<rparr>"

definition dry_stats :: stats where
  "dry_stats =
     \<lparr> tools_updated = 0, docs_updated = 0, code_updated = 0, errors = 0, new_tools = 0,
       tools_processed = 1 \<rparr>"

section \<open>Properties\<close>

subsection \<open>Shared facts\<close>

lemma analyze_with_gemini_form:
  "analyze_with_gemini g loads content =
     (case g of
        None \<Rightarrow> ([], Inr [])
      | Some generate_content \<Rightarrow>
          ([prompt_of (analysis_content_of content)],
           Inr (case generate_content (prompt_of (analysis_content_of content)) of
                  Inl e \<Rightarrow> [gemini_analysis_error e]
                | Inr response \<Rightarrow>
                    (case parse_response loads response [] of
                       (acc, None) \<Rightarrow> acc
                     | (acc, Some e) \<Rightarrow> acc @ [gemini_parsing_error]))))"
  by (simp add: analyze_with_gemini_def try_except_def Let_def
      split: option.splits sum.splits prod.splits)

lemma analyze_with_gemini_returns:
  "\<exists>sent acc. analyze_with_gemini g loads content = (sent, Inr acc)"
  by (simp add: analyze_with_gemini_form split: option.splits)

lemma validate_content_returns:
  "\<exists>sent r. validate_content g loads content file_type = (sent, Inr r)"
proof (cases g)
  case None
  then show ?thesis by (simp add: validate_content_def Let_def)
next
  case (Some gen)
  obtain sent acc where "analyze_with_gemini g loads content = (sent, Inr acc)"
    using analyze_with_gemini_returns by blast
  with Some show ?thesis by (simp add: validate_content_def Let_def)
qed

lemma build_result_valid:
  "valid (build_result acc) = (\<forall>i \<in> set acc. severity i \<noteq> PStr ''high'')"
  by (simp add: build_result_def Let_def filter_empty_conv)

lemma build_result_issues: "issues (build_result acc) = acc"
  by (simp add: build_result_def Let_def)

lemma build_result_summary:
  "summary (build_result acc) =
     (if acc = [] then ''No issues found in the script.'' else counts_sentence acc)"
  by (simp add: build_result_def Let_def counts_sentence_def count_severity_def)

lemma validate_content_nonempty:
  "content \<noteq> [] \<Longrightarrow> validate_content g loads content file_type = (sent, Inr r) \<Longrightarrow>
   \<exists>acc. r = build_result acc"
  by (auto simp add: validate_content_def Let_def split: option.splits prod.splits sum.splits)

lemma validate_content_empty:
  "validate_content g loads [] file_type = ([], Inr empty_result)"
  by (simp add: validate_content_def empty_result_def)

lemma severity_empty_content_issue: "severity empty_content_issue = PStr ''high''"
  by (simp add: empty_content_issue_def)

text \<open>
  Claim C1.  Every call of \<open>validate_content\<close> returns a result, and in that result
  \<open>valid\<close> is false exactly when some issue of the list has the severity \<open>high\<close>.
\<close>

theorem validate_content_valid_iff_no_high:
  "\<exists>sent r. validate_content g loads content file_type = (sent, Inr r) \<and>
     (\<not> valid r \<longleftrightarrow> (\<exists>i \<in> set (issues r). severity i = PStr ''high''))"
proof (cases "content = []")
  case True
  then show ?thesis
    by (simp add: validate_content_empty empty_result_def severity_empty_content_issue)
next
  case False
  obtain sent r where r: "validate_content g loads content file_type = (sent, Inr r)"
    using validate_content_returns by blast
  then obtain acc where "r = build_result acc"
    using validate_content_nonempty [OF False] by blast
  then have "\<not> valid r \<longleftrightarrow> (\<exists>i \<in> set (issues r). severity i = PStr ''high'')"
    by (simp add: build_result_valid build_result_issues)
  with r show ?thesis by blast
qed


theorem validate_content_valid_iff_no_high_witness:
  "\<exists>sent r. validate_content (Some gemini_prose) loads_rejecting prose ''.fountain'' = (sent, Inr r) \<and>
     valid r \<and> \<not> (\<exists>i \<in> set (issues r). severity i = PStr ''high'')"
  using validate_content_valid_iff_no_high [of "Some gemini_prose" loads_rejecting prose "''.fountain''"]
  by (auto simp add: validate_content_def analyze_with_gemini_form gemini_prose_def
      parse_response_def loads_rejecting_def build_result_def Let_def prose_def
      validate_scene_structure_def validate_continuity_def validate_character_consistency_def
      missing_scene_headers_issue_def gemini_parsing_error_def)

text \<open>
  Claim C2.  On empty content, whatever the file type, the client and the decoder,
  \<open>validate_content\<close> sends no prompt to the service and returns at once the result
  with \<open>valid\<close> false whose only issue is the high-severity \<open>empty_content\<close> issue.
\<close>

theorem validate_content_empty_short_circuit:
  "validate_content g loads [] file_type =
     ([], Inr \<lparr> valid = False, issues = [empty_content_issue],
                summary = ''Validation failed: Empty script content'' \<rparr>) \<and>
   issue_type empty_content_issue = PStr ''empty_content'' \<and>
   severity empty_content_issue = PStr ''high''"
  by (simp add: validate_content_def empty_content_issue_def)

text \<open>
  Claim C3.  For the file types \<open>.fdx\<close> and \<open>.fountain\<close> the scene-structure check
  returns exactly the medium-severity \<open>missing_scene_headers\<close> issue, with its two
  fixed suggestions, when no line of the content, trimmed, starts with \<open>INT.\<close> or
  \<open>EXT.\<close>, and no issue when some line does; for every other file type it returns no
  issue.
\<close>

lemma has_scene_header_filter:
  "has_scene_header content \<longleftrightarrow>
     filter (\<lambda>l. startswith (strip l) ''INT.'' \<or> startswith (strip l) ''EXT.'')
       (split_char CHR 0x0A content) \<noteq> []"
  by (simp add: has_scene_header_def filter_empty_conv)

lemma validate_scene_structure_if:
  "validate_scene_structure content file_type =
     (if file_type \<in> {''.fdx'', ''.fountain''} \<and> \<not> has_scene_header content
      then [missing_scene_headers_issue] else [])"
  by (simp add: validate_scene_structure_def has_scene_header_filter Let_def)

theorem validate_scene_structure_headers:
  "(file_type \<in> {''.fdx'', ''.fountain''} \<longrightarrow> \<not> has_scene_header content \<longrightarrow>
      validate_scene_structure content file_type = [missing_scene_headers_issue]) \<and>
   (file_type \<in> {''.fdx'', ''.fountain''} \<longrightarrow> has_scene_header content \<longrightarrow>
      validate_scene_structure content file_type = []) \<and>
   (file_type \<notin> {''.fdx'', ''.fountain''} \<longrightarrow> validate_scene_structure content file_type = []) \<and>
   issue_type missing_scene_headers_issue = PStr ''missing_scene_headers'' \<and>
   severity missing_scene_headers_issue = PStr ''medium'' \<and>
   suggestions missing_scene_headers_issue =
     PList [PStr ''Add proper scene headers starting with INT. or EXT.'',
            PStr ''Format scene headings according to screenplay standards'']"
  by (simp add: validate_scene_structure_if missing_scene_headers_issue_def)

lemma prose_no_header: "\<not> has_scene_header prose"
  by (simp add: has_scene_header_def prose_def strip_def py_isspace_def startswith_def)

lemma screenplay_header: "has_scene_header screenplay"
  by (simp add: has_scene_header_def screenplay_def strip_def py_isspace_def startswith_def)

theorem validate_scene_structure_headers_witness:
  "validate_scene_structure prose ''.fountain'' = [missing_scene_headers_issue] \<and>
   validate_scene_structure screenplay ''.fdx'' = [] \<and>
   validate_scene_structure prose ''.txt'' = []"
  using validate_scene_structure_headers [of "''.fountain''" prose]
    validate_scene_structure_headers [of "''.fdx''" screenplay]
    validate_scene_structure_headers [of "''.txt''" prose]
    prose_no_header screenplay_header
  by simp

text \<open>
  Claim C4.  \<open>_analyze_with_gemini\<close> always returns a list and never lets an exception
  out.  An exception of the call to the service becomes the one low-severity
  \<open>gemini_analysis_error\<close> issue; an exception while reading the response text,
  decoding the JSON or converting the entries becomes one low-severity
  \<open>gemini_parsing_error\<close> issue, appended to the entries converted before it.
\<close>

theorem analyze_with_gemini_never_raises:
  "analyze_with_gemini g loads content =
     (case g of
        None \<Rightarrow> ([], Inr [])
      | Some generate_content \<Rightarrow>
          ([prompt_of (analysis_content_of content)],
           Inr (case generate_content (prompt_of (analysis_content_of content)) of
                  Inl e \<Rightarrow> [gemini_analysis_error e]
                | Inr (Inl e) \<Rightarrow> [gemini_parsing_error]
                | Inr (Inr response_text) \<Rightarrow>
                    (case loads (extract_json_str response_text) of
                       Inl e \<Rightarrow> [gemini_parsing_error]
                     | Inr result \<Rightarrow>
                         (case convert_result result [] of
                            (acc, None) \<Rightarrow> acc
                          | (acc, Some e) \<Rightarrow> acc @ [gemini_parsing_error]))))) \<and>
   issue_type gemini_parsing_error = PStr ''gemini_parsing_error'' \<and>
   severity gemini_parsing_error = PStr ''low'' \<and>
   issue_type (gemini_analysis_error e) = PStr ''gemini_analysis_error'' \<and>
   severity (gemini_analysis_error e) = PStr ''low''"
  by (simp add: analyze_with_gemini_form parse_response_def gemini_parsing_error_def
      gemini_analysis_error_def split: option.splits sum.splits prod.splits)

theorem analyze_with_gemini_never_raises_witness:
  "snd (analyze_with_gemini (Some gemini_prose) loads_rejecting prose) = Inr [gemini_parsing_error] \<and>
   snd (analyze_with_gemini (Some gemini_down) loads_rejecting prose) =
     Inr [gemini_analysis_error (Exn (OtherException ''ConnectionError'') ''connection refused'')]"
  using analyze_with_gemini_never_raises [of "Some gemini_prose" loads_rejecting prose]
    analyze_with_gemini_never_raises [of "Some gemini_down" loads_rejecting prose]
  by (simp add: gemini_prose_def gemini_down_def loads_rejecting_def)

text \<open>
  Claim C5, as stated, fails on empty content: the summary of the result is a fixed
  text without any number, while the list holds one high-severity issue.
\<close>

theorem summary_restates_counts_counterexample:
  "validate_content None loads_rejecting [] ''.fountain'' = ([], Inr empty_result) \<and>
   issues empty_result = [empty_content_issue] \<and>
   summary empty_result = ''Validation failed: Empty script content'' \<and>
   counts_sentence (issues empty_result) = ''Found 1 issues: 1 high, 0 medium, 0 low severity.'' \<and>
   summary empty_result \<noteq> counts_sentence (issues empty_result) \<and>
   digits_of (summary empty_result) = []"
  by (simp add: validate_content_empty empty_result_def counts_sentence_def count_severity_def
      empty_content_issue_def digits_of_def show_nat.simps digit_char_def char_of_eq_iff)

text \<open>
  Claim C5, amended.  The summary of a result of \<open>validate_content\<close> is the fixed
  text \<open>Validation failed: Empty script content\<close> on empty content, the fixed text
  \<open>No issues found in the script.\<close> when the content is not empty and no issue was
  found, and otherwise the sentence that restates the total and the numbers of high,
  medium and low issues, equal to the counts recomputed from the list of issues.
\<close>

theorem validate_content_summary:
  "validate_content g loads content file_type = (sent, Inr r) \<Longrightarrow>
   summary r =
     (if content = [] then ''Validation failed: Empty script content''
      else if issues r = [] then ''No issues found in the script.''
      else counts_sentence (issues r))"
proof (cases "content = []")
  case True
  assume "validate_content g loads content file_type = (sent, Inr r)"
  with True show ?thesis by (auto simp add: validate_content_empty empty_result_def)
next
  case False
  assume "validate_content g loads content file_type = (sent, Inr r)"
  then obtain acc where "r = build_result acc"
    using validate_content_nonempty [OF False] by blast
  with False show ?thesis by (simp add: build_result_summary build_result_issues)
qed

lemma validate_content_prose:
  "validate_content None loads_rejecting prose ''.fountain'' = ([], Inr prose_result)"
proof -
  have "prose \<noteq> []" by (simp add: prose_def)
  then show ?thesis
    by (simp add: validate_content_def Let_def validate_continuity_def
        validate_character_consistency_def prose_result_def build_result_def
        validate_scene_structure_if prose_no_header
        missing_scene_headers_issue_def show_nat.simps digit_char_def char_of_eq_iff)
qed

theorem validate_content_summary_witness:
  "validate_content None loads_rejecting prose ''.fountain'' = ([], Inr prose_result) \<and>
   summary prose_result = ''Found 1 issues: 0 high, 1 medium, 0 low severity.'' \<and>
   summary prose_result = counts_sentence (issues prose_result)"
  using validate_content_summary [OF validate_content_prose] validate_content_prose
  by (simp add: prose_result_def prose_def)

subsection \<open>Extensions\<close>

lemma rfind_bounds: "- 1 \<le> rfind c p \<and> rfind c p < int (length p)"
  by (induction p) (auto simp add: Let_def)

lemma rfind_neg_iff: "rfind c p < 0 \<longleftrightarrow> c \<notin> set p"
  by (induction p) (auto simp add: Let_def)

lemma rfind_nth: "0 \<le> rfind c p \<Longrightarrow> p ! nat (rfind c p) = c"
proof (induction p)
  case Nil
  then show ?case by simp
next
  case (Cons x xs)
  show ?case
  proof (cases "0 \<le> rfind c xs")
    case True
    then have "nat (rfind c xs + 1) = Suc (nat (rfind c xs))" by simp
    with True Cons.IH show ?thesis by (simp add: Let_def)
  next
    case False
    with Cons.prems show ?thesis by (simp add: Let_def split: if_splits)
  qed
qed

lemma rfind_last: "0 \<le> rfind c p \<Longrightarrow> c \<notin> set (drop (Suc (nat (rfind c p))) p)"
proof (induction p)
  case Nil
  then show ?case by simp
next
  case (Cons x xs)
  show ?case
  proof (cases "0 \<le> rfind c xs")
    case True
    then have "nat (rfind c xs + 1) = Suc (nat (rfind c xs))" by simp
    with True Cons.IH show ?thesis by (simp add: Let_def)
  next
    case False
    then have "c \<notin> set xs" using rfind_neg_iff [of c xs] by simp
    with False Cons.prems show ?thesis by (simp add: Let_def split: if_splits)
  qed
qed

lemma splitext_concat: "fst (splitext p) @ snd (splitext p) = p"
  by (simp add: splitext_def Let_def)

lemma splitext_ext:
  "snd (splitext p) = [] \<or>
   (\<exists>rest. snd (splitext p) = CHR ''.'' # rest \<and> CHR ''.'' \<notin> set rest \<and> CHR ''/'' \<notin> set rest)"
proof (cases "rfind CHR ''/'' p < rfind CHR ''.'' p \<and>
    has_name_before_dot p (nat (rfind CHR ''/'' p + 1)) (nat (rfind CHR ''.'' p))")
  case False
  then show ?thesis by (auto simp add: splitext_def Let_def)
next
  case True
  let ?d = "rfind CHR ''.'' p" and ?s = "rfind CHR ''/'' p"
  from True have d0: "0 \<le> ?d" using rfind_bounds [of "CHR ''/''" p] by linarith
  have dlt: "nat ?d < length p" using rfind_bounds [of "CHR ''.''" p] d0 by simp
  have ext: "snd (splitext p) = drop (nat ?d) p" using True by (simp add: splitext_def Let_def)
  have "drop (nat ?d) p = p ! nat ?d # drop (Suc (nat ?d)) p"
    using dlt by (simp add: Cons_nth_drop_Suc)
  then have shape: "snd (splitext p) = CHR ''.'' # drop (Suc (nat ?d)) p"
    using ext rfind_nth [OF d0] by simp
  have nodot: "CHR ''.'' \<notin> set (drop (Suc (nat ?d)) p)" using rfind_last [OF d0] .
  have noslash: "CHR ''/'' \<notin> set (drop (Suc (nat ?d)) p)"
  proof (cases "0 \<le> ?s")
    case False
    then have "CHR ''/'' \<notin> set p" using rfind_neg_iff [of "CHR ''/''" p] by simp
    then show ?thesis by (meson in_set_dropD)
  next
    case s0: True
    have "CHR ''/'' \<notin> set (drop (Suc (nat ?s)) p)" using rfind_last [OF s0] .
    moreover have "Suc (nat ?s) \<le> Suc (nat ?d)" using True s0 by linarith
    ultimately show ?thesis by (meson set_drop_subset_set_drop subsetD)
  qed
  from shape nodot noslash show ?thesis by blast
qed

lemma splitext_no_dot: "CHR ''.'' \<notin> set p \<Longrightarrow> snd (splitext p) = []"
proof -
  assume "CHR ''.'' \<notin> set p"
  then have "rfind CHR ''.'' p < 0" by (simp add: rfind_neg_iff)
  moreover have "- 1 \<le> rfind CHR ''/'' p" using rfind_bounds [of "CHR ''/''" p] by simp
  ultimately show ?thesis by (simp add: splitext_def Let_def)
qed

lemma lower_char_idem: "lower_char (lower_char c) = lower_char c"
  by (auto simp add: lower_char_def Let_def)

lemma lower_idem: "lower (lower s) = lower s"
  by (simp add: lower_def lower_char_idem)

lemma lower_char_dot: "lower_char CHR ''.'' = CHR ''.''"
  by (simp add: lower_char_def)

lemma file_ext_of_shape:
  "file_ext_of p = [] \<or> (\<exists>rest. file_ext_of p = CHR ''.'' # rest)"
  using splitext_ext [of p] by (auto simp add: file_ext_of_def lower_def lower_char_dot)

text \<open>
  Claim C7, as stated, fails on a path without extension: the file type handed to
  \<open>validate_content\<close> is then the empty string, not a default such as \<open>.txt\<close>.
\<close>

theorem file_type_default_counterexample:
  "example_fs ''README'' = Some (Inr prose) \<and>
   file_ext_of ''README'' = [] \<and>
   file_ext_of ''README'' \<noteq> ''.txt'' \<and>
   validate_file None loads_rejecting example_fs ''README'' =
     validate_content None loads_rejecting prose []"
  by (simp add: example_fs_def validate_file_def file_ext_of_def splitext_def Let_def lower_def)

text \<open>
  Claim C7, amended.  \<open>validate_file\<close> fails with \<open>FileNotFoundError\<close> when the path
  does not exist; when the path exists and is read, the result is that of
  \<open>validate_content\<close> on the full text with the extension of the path as file type:
  in lower case, beginning with the dot, and empty (no default is substituted) when the
  path has no extension.  An exception of opening or reading the file leaves
  \<open>validate_file\<close> as it is.
\<close>

theorem validate_file_contract:
  "(fs file_path = None \<longrightarrow>
      validate_file g loads fs file_path =
        ([], Inl (Exn FileNotFoundError (''Script file not found: '' @ file_path)))) \<and>
   (fs file_path = Some (Inr content) \<longrightarrow>
      validate_file g loads fs file_path =
        validate_content g loads content (file_ext_of file_path)) \<and>
   (fs file_path = Some (Inl e) \<longrightarrow> validate_file g loads fs file_path = ([], Inl e)) \<and>
   file_ext_of file_path = lower (snd (splitext file_path)) \<and>
   fst (splitext file_path) @ snd (splitext file_path) = file_path \<and>
   (file_ext_of file_path = [] \<or> (\<exists>rest. file_ext_of file_path = CHR ''.'' # rest)) \<and>
   lower (file_ext_of file_path) = file_ext_of file_path \<and>
   (CHR ''.'' \<notin> set file_path \<longrightarrow> file_ext_of file_path = [])"
proof -
  have "file_ext_of file_path = lower (snd (splitext file_path))"
    by (simp add: file_ext_of_def)
  moreover have "lower (file_ext_of file_path) = file_ext_of file_path"
    by (simp add: file_ext_of_def lower_idem)
  moreover have "CHR ''.'' \<notin> set file_path \<longrightarrow> file_ext_of file_path = []"
    using splitext_no_dot [of file_path] by (simp add: file_ext_of_def lower_def)
  ultimately show ?thesis
    using file_ext_of_shape [of file_path]
    by (simp add: validate_file_def Let_def splitext_concat)
qed

lemma has_name_Pilot: "has_name_before_dot ''drafts/Pilot.FOUNTAIN'' 7 12"
  by (simp add: has_name_before_dot.simps)

lemma file_ext_of_Pilot: "file_ext_of ''drafts/Pilot.FOUNTAIN'' = ''.fountain''"
  by (simp add: file_ext_of_def splitext_def Let_def has_name_Pilot lower_def lower_char_def
      char_of_eq_iff)

theorem validate_file_contract_witness:
  "validate_file None loads_rejecting example_fs ''missing.fdx'' =
     ([], Inl (Exn FileNotFoundError ''Script file not found: missing.fdx'')) \<and>
   validate_file None loads_rejecting example_fs ''drafts/Pilot.FOUNTAIN'' =
     validate_content None loads_rejecting prose ''.fountain'' \<and>
   validate_file None loads_rejecting example_fs ''drafts'' =
     ([], Inl (Exn (OtherException ''IsADirectoryError'') ''[Errno 21] Is a directory: drafts''))"
  using validate_file_contract [where fs = example_fs and file_path = "''missing.fdx''"
      and g = None and loads = loads_rejecting]
    validate_file_contract [where fs = example_fs and file_path = "''drafts/Pilot.FOUNTAIN''"
      and content = prose and g = None and loads = loads_rejecting]
    validate_file_contract [where fs = example_fs and file_path = "''drafts''"
      and e = "Exn (OtherException ''IsADirectoryError'') ''[Errno 21] Is a directory: drafts''"
      and g = None and loads = loads_rejecting]
  by (simp add: example_fs_def file_ext_of_Pilot)

subsection \<open>Reports\<close>

lemma capitalize_value_ok: "(\<exists>t. capitalize_value b v = Inr t) \<longleftrightarrow> is_str v"
  by (cases v) (simp_all add: capitalize_value_def is_str_def)

lemma py_iter_ok: "(\<exists>xs. py_iter v = Inr xs) \<longleftrightarrow> is_iterable v"
  by (cases v) (simp_all add: is_iterable_def)

lemma issue_row_ok:
  "(\<exists>t. issue_row b i = Inr t) \<longleftrightarrow> is_str (severity i) \<and> is_iterable (suggestions i)"
  using capitalize_value_ok [of b "severity i"] py_iter_ok [of "suggestions i"]
  by (auto simp add: issue_row_def split: sum.splits)

lemma capitalize_value_error:
  "capitalize_value b v = Inl e \<Longrightarrow> exn_class_of e = AttributeError"
  by (cases v) (auto simp add: capitalize_value_def)

lemma py_iter_error: "py_iter v = Inl e \<Longrightarrow> exn_class_of e = TypeError"
  by (cases v) auto

lemma issue_row_error:
  "issue_row b i = Inl e \<Longrightarrow> exn_class_of e = AttributeError \<or> exn_class_of e = TypeError"
  by (auto simp add: issue_row_def split: sum.splits
      dest: capitalize_value_error py_iter_error)

lemma issue_rows_ok:
  "(\<exists>t. issue_rows b xs = Inr t) \<longleftrightarrow>
   (\<forall>i \<in> set xs. is_str (severity i) \<and> is_iterable (suggestions i))"
proof (induction xs)
  case Nil
  then show ?case by simp
next
  case (Cons i xs)
  show ?case
    using Cons.IH issue_row_ok [of b i]
    by (auto split: sum.splits)
qed

lemma issue_rows_error:
  "issue_rows b xs = Inl e \<Longrightarrow> exn_class_of e = AttributeError \<or> exn_class_of e = TypeError"
proof (induction xs)
  case Nil
  then show ?case by simp
next
  case (Cons i xs)
  then show ?case
    by (auto split: sum.splits dest: issue_row_error)
qed

lemma html_report_ok:
  "(\<exists>t. html_report b r = Inr t) \<longleftrightarrow>
   (\<forall>i \<in> set (issues r). is_str (severity i) \<and> is_iterable (suggestions i))"
proof (cases "issues r = []")
  case True
  then show ?thesis by (simp add: html_report_def Let_def)
next
  case False
  then show ?thesis
    using issue_rows_ok [of b "issues r"]
    by (auto simp add: html_report_def Let_def split: sum.splits)
qed

lemma html_report_error:
  "html_report b r = Inl e \<Longrightarrow> exn_class_of e = AttributeError \<or> exn_class_of e = TypeError"
  by (auto simp add: html_report_def Let_def split: if_splits sum.splits dest: issue_rows_error)

lemma get_report_json:
  "lower format = ''json'' \<Longrightarrow> get_report b r format = Inr (json_dumps (report_object r))"
  by (simp add: get_report_def)

lemma get_report_html:
  "lower format = ''html'' \<Longrightarrow> get_report b r format = html_report b r"
  by (simp add: get_report_def)

lemma get_report_other:
  "lower format \<noteq> ''json'' \<Longrightarrow> lower format \<noteq> ''html'' \<Longrightarrow>
   get_report b r format = Inl (Exn ValueError (''Unsupported report format: '' @ format))"
  by (simp add: get_report_def)

lemma validate_content_null_severity:
  "validate_content (Some gemini_null_severity) loads_null_severity prose ''.txt'' =
     ([prompt_of prose], Inr null_severity_result)"
proof -
  have ex: "extract_json_str null_severity_text = null_severity_text"
    by (simp add: extract_json_str_def null_severity_text_def fence_json_def fence_def
        strip_def py_isspace_def)
  have ac: "analysis_content_of prose = prose"
    by (simp add: analysis_content_of_def max_length_def prose_def)
  have conv: "convert_result (PList [PDict [(''issue_type'', PStr ''pacing''), (''severity'', PNone)]]) [] =
      ([\<lparr> issue_type = PStr ''pacing'', description = PStr ''No description provided'',
          location = PStr ''unknown'', severity = PNone, suggestions = PList [] \<rparr>], None)"
    by (simp add: convert_result_def issue_of_item_def)
  have an: "analyze_with_gemini (Some gemini_null_severity) loads_null_severity prose =
      ([prompt_of prose],
       Inr [\<lparr> issue_type = PStr ''pacing'', description = PStr ''No description provided'',
          location = PStr ''unknown'', severity = PNone, suggestions = PList [] \<rparr>])"
    by (simp add: analyze_with_gemini_form ac gemini_null_severity_def parse_response_def ex
        loads_null_severity_def conv)
  have ne: "prose \<noteq> []" by (simp add: prose_def)
  have vs: "validate_scene_structure prose ''.txt'' = []"
    by (simp add: validate_scene_structure_if)
  show ?thesis
    using ne
    by (simp add: validate_content_def Let_def an vs validate_continuity_def
        validate_character_consistency_def build_result_def null_severity_result_def
        show_nat.simps digit_char_def char_of_eq_iff)
qed

text \<open>
  Claim C9, as stated, fails for the HTML format: a result that \<open>validate_content\<close>
  builds from an answer of the service with a \<open>null\<close> severity makes \<open>get_report\<close>
  raise \<open>AttributeError\<close>.
\<close>

theorem get_report_html_counterexample:
  "validate_content (Some gemini_null_severity) loads_null_severity prose ''.txt'' =
     ([prompt_of prose], Inr null_severity_result) \<and>
   get_report plain_builtins null_severity_result ''html'' =
     Inl (Exn AttributeError
       ([CHR 0x27] @ ''NoneType'' @ [CHR 0x27] @ '' object has no attribute '' @
        [CHR 0x27] @ ''capitalize'' @ [CHR 0x27]))"
  by (simp add: validate_content_null_severity)
     (simp add: get_report_def lower_def lower_char_def html_report_def Let_def
        null_severity_result_def issue_row_def capitalize_value_def)

text \<open>
  Claim C9, amended.  For a format that is neither \<open>json\<close> nor \<open>html\<close> in lower case,
  \<open>get_report\<close> fails with the \<open>ValueError\<close> that names the format.  For \<open>json\<close> it
  always returns the text of the encoded result.  For \<open>html\<close> it returns a text
  whenever every issue has a string as severity and a list, a string or a \<open>dict\<close> as
  suggestions, which is what the dataclass declares.
\<close>

theorem get_report_formats:
  "(lower format \<noteq> ''json'' \<and> lower format \<noteq> ''html'' \<longrightarrow>
      get_report b r format =
        Inl (Exn ValueError (''Unsupported report format: '' @ format))) \<and>
   (lower format = ''json'' \<longrightarrow> get_report b r format = Inr (json_dumps (report_object r))) \<and>
   (lower format = ''html'' \<longrightarrow>
      (\<forall>i \<in> set (issues r). is_str (severity i) \<and> is_iterable (suggestions i)) \<longrightarrow>
      (\<exists>t. get_report b r format = Inr t))"
  using html_report_ok [of b r]
  by (auto simp add: get_report_json get_report_html get_report_other)

lemma lower_examples:
  "lower ''XML'' = ''xml''" "lower ''JSON'' = ''json''" "lower ''Html'' = ''html''"
  "lower ''xml'' = ''xml''" "lower ''json'' = ''json''" "lower ''html'' = ''html''"
  by (simp_all add: lower_def lower_char_def char_of_eq_iff)

lemma prose_result_typed:
  "\<forall>i \<in> set (issues prose_result). is_str (severity i) \<and> is_iterable (suggestions i)"
  by (simp add: prose_result_def missing_scene_headers_issue_def is_str_def is_iterable_def)

theorem get_report_formats_witness:
  "get_report plain_builtins prose_result ''XML'' =
     Inl (Exn ValueError ''Unsupported report format: XML'') \<and>
   get_report plain_builtins prose_result ''JSON'' = Inr (json_dumps (report_object prose_result)) \<and>
   (\<exists>t. get_report plain_builtins prose_result ''Html'' = Inr t)"
  using get_report_formats [of "''XML''" plain_builtins prose_result]
    get_report_formats [of "''JSON''" plain_builtins prose_result]
    get_report_formats [of "''Html''" plain_builtins prose_result]
    prose_result_typed
  by (simp add: lower_examples)

text \<open>
  Claim C10, as stated, fails on an unsupported format with a capital letter: the two
  calls raise \<open>ValueError\<close> with different texts, since the message quotes the format
  as it was passed.
\<close>

theorem get_report_lower_counterexample:
  "get_report plain_builtins prose_result ''XML'' =
     Inl (Exn ValueError ''Unsupported report format: XML'') \<and>
   get_report plain_builtins prose_result (lower ''XML'') =
     Inl (Exn ValueError ''Unsupported report format: xml'') \<and>
   get_report plain_builtins prose_result ''XML'' \<noteq>
     get_report plain_builtins prose_result (lower ''XML'')"
  by (simp add: lower_examples get_report_def)

text \<open>
  Claim C10, amended.  When the format in lower case is \<open>json\<close> or \<open>html\<close>,
  \<open>get_report\<close> on the format and on its lower-case form give the same outcome.
  Otherwise both calls fail with \<open>ValueError\<close>, each message quoting the format
  string of its own call.
\<close>

theorem get_report_case_insensitive:
  "(lower format = ''json'' \<or> lower format = ''html'' \<longrightarrow>
      get_report b r format = get_report b r (lower format)) \<and>
   (lower format \<noteq> ''json'' \<and> lower format \<noteq> ''html'' \<longrightarrow>
      get_report b r format =
        Inl (Exn ValueError (''Unsupported report format: '' @ format)) \<and>
      get_report b r (lower format) =
        Inl (Exn ValueError (''Unsupported report format: '' @ lower format)))"
proof -
  have "get_report b r (lower format) =
      (if lower format = ''json'' then Inr (json_dumps (report_object r))
       else if lower format = ''html'' then html_report b r
       else Inl (Exn ValueError (''Unsupported report format: '' @ lower format)))"
    unfolding get_report_def lower_idem ..
  then show ?thesis by (simp add: get_report_def)
qed

theorem get_report_case_insensitive_witness:
  "get_report plain_builtins prose_result ''JSON'' =
     get_report plain_builtins prose_result ''json'' \<and>
   get_report plain_builtins prose_result ''Html'' =
     get_report plain_builtins prose_result ''html'' \<and>
   get_report plain_builtins prose_result ''XML'' =
     Inl (Exn ValueError ''Unsupported report format: XML'') \<and>
   get_report plain_builtins prose_result ''xml'' =
     Inl (Exn ValueError ''Unsupported report format: xml'')"
  using get_report_case_insensitive [of "''JSON''" plain_builtins prose_result]
    get_report_case_insensitive [of "''Html''" plain_builtins prose_result]
    get_report_case_insensitive [of "''XML''" plain_builtins prose_result]
  by (simp add: lower_examples)

subsection \<open>The updater in a dry run\<close>

lemma written_logger: "written (logger lvl msg w) = written w"
  by (simp add: logger_def)

lemma update_documentation_dry:
  "dry_run u \<Longrightarrow> getitem t ''Tool Name'' = Inr name \<Longrightarrow>
   fst (update_documentation u t w) = Inr False \<and>
   written (snd (update_documentation u t w)) = written w"
  by (simp add: update_documentation_def Let_def written_logger)

lemma ensure_tool_directory_dry:
  "dry_run u \<Longrightarrow>
   fst (ensure_tool_directory u t w) = Inr False \<and>
   written (snd (ensure_tool_directory u t w)) = written w"
  by (simp add: ensure_tool_directory_def written_logger split: option.splits)

lemma update_tool_code_dry:
  "dry_run u \<Longrightarrow> getitem t ''Tool Name'' = Inr name \<Longrightarrow>
   fst (update_tool_code u t w) = Inr False \<and>
   written (snd (update_tool_code u t w)) = written w"
  by (simp add: update_tool_code_def Let_def written_logger)

lemma update_last_updated_dry:
  "dry_run u \<Longrightarrow> getitem t ''Tool Name'' = Inr name \<Longrightarrow>
   fst (update_last_updated u env t w) = Inr False \<and>
   written (snd (update_last_updated u env t w)) = written w"
  by (simp add: update_last_updated_def Let_def written_logger)

lemma send_den_message_dry:
  "dry_run u \<Longrightarrow>
   fst (send_den_message u text w) = False \<and>
   written (snd (send_den_message u text w)) = written w"
  by (simp add: send_den_message_def Let_def written_logger)

lemma update_tools_dry:
  "dry_run u \<Longrightarrow>
   \<exists>w'. update_tools u env (fst (get_tools_data w0)) w = (Inr dry_stats, w') \<and>
        written w' = written w"
  by (simp add: get_tools_data_def Let_def update_tools_def process_tool_def getitem_def
      truthy_get_def update_documentation_def ensure_tool_directory_def update_tool_code_def
      dry_stats_def written_logger)

lemma run_dry_written:
  assumes "dry_run u" and "open_error env ''last_update_summary.md'' = None"
  shows "fst (run u env w) = None \<and>
         written (snd (run u env w)) =
           written w @ [(''last_update_summary.md'', generate_summary_report env dry_stats)]"
proof -
  let ?w0 = "logger INFO ''Starting tools update process'' w"
  obtain td w1 where g: "get_tools_data ?w0 = (td, w1)" by (cases "get_tools_data ?w0")
  have w1: "written w1 = written w"
    using g by (auto simp add: get_tools_data_def Let_def written_logger)
  have td: "td = fst (get_tools_data ?w0)" using g by simp
  obtain w2 where u: "update_tools u env td w1 = (Inr dry_stats, w2)" and w2: "written w2 = written w1"
    using update_tools_dry [OF assms(1), of env ?w0 w1] td by auto
  obtain b w3 where s: "send_den_message u (generate_summary_report env dry_stats) w2 = (b, w3)"
    by (cases "send_den_message u (generate_summary_report env dry_stats) w2")
  have w3: "written w3 = written w2"
    using send_den_message_dry [OF assms(1), of "generate_summary_report env dry_stats" w2] s by simp
  show ?thesis
    using assms(2) w1 w2 w3
    by (simp add: run_def Let_def g u s write_file_def written_logger)
qed

text \<open>
  Claim C8 at the failing input: a dry run of the updater on a writable directory ends
  without exception and has written the file \<open>last_update_summary.md\<close>.
\<close>

theorem dry_run_writes_summary_file:
  "fst (run \<lparr> dry_run = True \<rparr> example_env initial_world) = None \<and>
   written (snd (run \<lparr> dry_run = True \<rparr> example_env initial_world)) =
     [(''last_update_summary.md'', generate_summary_report example_env dry_stats)]"
  using run_dry_written [of "\<lparr> dry_run = True \<rparr>" example_env initial_world]
  by (simp add: example_env_def initial_world_def)

subsection \<open>The reader on encoded texts\<close>

lemma char_of_code: "(of_char c :: nat) = n \<Longrightarrow> c = char_of n"
  by (metis char_of_char)

lemma char_of_named:
  "char_of (8::nat) = CHR 0x08" "char_of (12::nat) = CHR 0x0C" "char_of (10::nat) = CHR 0x0A"
  "char_of (13::nat) = CHR 0x0D" "char_of (9::nat) = CHR 0x09"
  by (simp_all add: char_of_eq_iff)

lemma hex_value_hex_digit: "d < 16 \<Longrightarrow> hex_value (hex_digit d) = Some d"
  by (auto simp add: hex_value_def hex_digit_def Let_def)

lemma hex_value_zero: "hex_value CHR ''0'' = Some 0"
  by (simp add: hex_value_def)

lemma unicode_escape_code:
  "unicode_escape CHR ''0'' CHR ''0'' (hex_digit (of_char c div 16)) (hex_digit (of_char c mod 16)) = Some c"
proof -
  have "(of_char c :: nat) div 16 < 16"
    using nat_of_char_less_256 [of c] by (simp add: less_mult_imp_div_less)
  moreover have "(of_char c :: nat) mod 16 < 16" by simp
  moreover have "16 * ((of_char c :: nat) div 16) + of_char c mod 16 = of_char c" by simp
  ultimately show ?thesis
    by (simp add: unicode_escape_def hex_value_zero hex_value_hex_digit)
qed

lemma scan_string_escape_char:
  "scan_string (escape_char c @ t) =
     (case scan_string t of None \<Rightarrow> None | Some (str, rest) \<Rightarrow> Some (c # str, rest))"
proof -
  let ?n = "of_char c :: nat"
  consider (named) "c = CHR 0x5C \<or> c = CHR 0x22 \<or> ?n = 8 \<or> ?n = 12 \<or> ?n = 10 \<or> ?n = 13 \<or> ?n = 9"
    | (plain) "c \<noteq> CHR 0x5C" "c \<noteq> CHR 0x22" "32 \<le> ?n" "?n \<le> 126"
    | (coded) "c \<noteq> CHR 0x5C" "c \<noteq> CHR 0x22" "?n \<noteq> 8" "?n \<noteq> 12" "?n \<noteq> 10" "?n \<noteq> 13"
        "?n \<noteq> 9" "\<not> (32 \<le> ?n \<and> ?n \<le> 126)"
    by blast
  then show ?thesis
  proof cases
    case named
    then show ?thesis
      by (auto simp add: escape_char_def unescape_def char_of_named split: option.splits dest!: char_of_code)
  next
    case plain
    then show ?thesis
      by (auto simp add: escape_char_def Let_def split: option.splits)
  next
    case coded
    then have "escape_char c =
        [CHR 0x5C, CHR ''u'', CHR ''0'', CHR ''0'', hex_digit (?n div 16), hex_digit (?n mod 16)]"
      by (simp add: escape_char_def Let_def)
    then show ?thesis
      by (simp add: unicode_escape_code split: option.splits)
  qed
qed

lemma scan_string_encoded:
  "scan_string (concat (map escape_char s) @ CHR 0x22 # rest) = Some (s, rest)"
  by (induction s) (simp_all add: scan_string_escape_char)

lemma digit_char_code: "d < 10 \<Longrightarrow> (of_char (digit_char d) :: nat) = 48 + d"
  by (simp add: digit_char_def)

lemma is_digit_digit_char: "d < 10 \<Longrightarrow> is_digit (digit_char d)"
  by (simp add: is_digit_def digit_char_code)

lemma digit_char_zero_iff: "d < 10 \<Longrightarrow> digit_char d = CHR ''0'' \<longleftrightarrow> d = 0"
proof
  assume d: "d < 10" and "digit_char d = CHR ''0''"
  then have "(of_char (digit_char d) :: nat) = of_char CHR ''0''" by simp
  with d show "d = 0" by (simp add: digit_char_code)
next
  assume "d = 0"
  then show "digit_char d = CHR ''0''" by (simp add: digit_char_def char_of_eq_iff)
qed

lemma show_nat_small: "n < 10 \<Longrightarrow> show_nat n = [digit_char n]"
  by (simp add: show_nat.simps)

lemma show_nat_large:
  "\<not> n < 10 \<Longrightarrow> show_nat n = show_nat (n div 10) @ [digit_char (n mod 10)]"
  by (subst show_nat.simps) simp

lemma show_nat_nonempty: "show_nat n \<noteq> []"
  by (cases "n < 10") (simp_all add: show_nat_small show_nat_large)

lemma show_nat_digits: "c \<in> set (show_nat n) \<Longrightarrow> is_digit c"
proof (induction n arbitrary: c rule: show_nat.induct)
  case (1 n)
  show ?case
  proof (cases "n < 10")
    case True
    with "1.prems" show ?thesis by (simp add: show_nat_small is_digit_digit_char)
  next
    case False
    with "1.prems" "1.IH" show ?thesis
      by (auto simp add: show_nat_large is_digit_digit_char)
  qed
qed

lemma show_nat_head: "take 1 (show_nat n) = ''0'' \<longleftrightarrow> n = 0"
proof (induction n rule: show_nat.induct)
  case (1 n)
  show ?case
  proof (cases "n < 10")
    case True
    then show ?thesis by (simp add: show_nat_small digit_char_zero_iff)
  next
    case False
    have unfolded: "show_nat n = show_nat (n div 10) @ [digit_char (n mod 10)]"
      using False by (rule show_nat_large)
    have "take 1 (show_nat (n div 10) @ [digit_char (n mod 10)]) = take 1 (show_nat (n div 10))"
      using show_nat_nonempty [of "n div 10"] by (cases "show_nat (n div 10)") simp_all
    then have "take 1 (show_nat n) = take 1 (show_nat (n div 10))"
      by (simp only: unfolded)
    moreover have "n div 10 \<noteq> 0" using False by simp
    moreover have "take 1 (show_nat (n div 10)) = ''0'' \<longleftrightarrow> n div 10 = 0"
      using False by (rule "1.IH")
    moreover have "n \<noteq> 0" using False by simp
    ultimately show ?thesis by simp
  qed
qed

lemma digits_value_snoc:
  "digits_value (ds @ [c]) = 10 * digits_value ds + ((of_char c :: nat) - 48)"
  by (simp add: digits_value_def)

lemma digits_value_show_nat: "digits_value (show_nat n) = n"
proof (induction n rule: show_nat.induct)
  case (1 n)
  show ?case
  proof (cases "n < 10")
    case True
    then show ?thesis by (simp add: show_nat_small digits_value_def digit_char_code)
  next
    case False
    then show ?thesis
      using "1.IH" by (simp add: show_nat_large digits_value_snoc digit_char_code)
  qed
qed

lemma delimited_no_digit: "delimited rest \<Longrightarrow> takeWhile is_digit rest = []"
  by (cases rest) (auto simp add: delimited_def is_digit_def)

lemma delimited_no_fraction:
  "delimited rest \<Longrightarrow> take 1 rest \<noteq> ''.'' \<and> take 1 rest \<noteq> ''e'' \<and> take 1 rest \<noteq> ''E''"
  by (auto simp add: delimited_def)

lemma takeWhile_show_nat:
  "delimited rest \<Longrightarrow> takeWhile is_digit (show_nat n @ rest) = show_nat n"
  by (simp add: takeWhile_append2 show_nat_digits delimited_no_digit)

lemma show_nat_zero: "show_nat 0 = ''0''"
  by (simp add: show_nat_small digit_char_def char_of_eq_iff)

lemma show_nat_shape:
  obtains c cs where "show_nat n = c # cs" and "is_digit c" and "c \<noteq> CHR ''-''"
    and "c = CHR ''0'' \<longleftrightarrow> n = 0"
proof -
  obtain c cs where s: "show_nat n = c # cs"
    using show_nat_nonempty [of n] by (cases "show_nat n") auto
  then have d: "is_digit c" using show_nat_digits [of c n] by simp
  then have m: "c \<noteq> CHR ''-''" by (auto simp add: is_digit_def)
  have "c = CHR ''0'' \<longleftrightarrow> n = 0" using show_nat_head [of n] s by simp
  with s d m show ?thesis using that by blast
qed

lemma scan_number_show_nat:
  assumes "delimited rest"
  shows "scan_number (show_nat n @ rest) = Some (PInt (int n), rest)"
proof (cases "n = 0")
  case True
  then show ?thesis
    using delimited_no_fraction [OF assms]
    by (simp add: show_nat_zero scan_number_def Let_def digits_value_def)
next
  case False
  obtain c cs where s: "show_nat n = c # cs" and m: "c \<noteq> CHR ''-''"
    and z: "c = CHR ''0'' \<longleftrightarrow> n = 0"
    by (rule show_nat_shape)
  have tw: "takeWhile is_digit (c # cs @ rest) = c # cs"
    using takeWhile_show_nat [OF assms, of n] by (simp only: s append_Cons)
  have dv: "digits_value (c # cs) = n" using digits_value_show_nat [of n] by (simp only: s)
  have "scan_number (c # cs @ rest) = Some (PInt (int n), rest)"
    using delimited_no_fraction [OF assms] False m z
    by (simp add: scan_number_def Let_def tw dv del: takeWhile.simps)
  then show ?thesis by (simp only: s append_Cons)
qed

lemma scan_number_show_int:
  assumes "delimited rest"
  shows "scan_number (show_int i @ rest) = Some (PInt i, rest)"
proof (cases "i < 0")
  case False
  then show ?thesis using scan_number_show_nat [OF assms, of "nat i"] by (simp add: show_int_def)
next
  case True
  let ?n = "nat (- i)"
  have n0: "?n \<noteq> 0" using True by simp
  obtain c cs where s: "show_nat ?n = c # cs" and z: "c = CHR ''0'' \<longleftrightarrow> ?n = 0"
    by (rule show_nat_shape)
  have tw: "takeWhile is_digit (c # cs @ rest) = c # cs"
    using takeWhile_show_nat [OF assms, of ?n] by (simp only: s append_Cons)
  have dv: "digits_value (c # cs) = ?n" using digits_value_show_nat [of ?n] by (simp only: s)
  have "scan_number (CHR ''-'' # c # cs @ rest) = Some (PInt (- int ?n), rest)"
    using delimited_no_fraction [OF assms] n0 z
    by (simp add: scan_number_def Let_def tw dv del: takeWhile.simps)
  then have "scan_number (CHR ''-'' # show_nat ?n @ rest) = Some (PInt (- int ?n), rest)"
    by (simp only: s append_Cons)
  with True show ?thesis by (simp add: show_int_def)
qed

lemma show_int_shape:
  obtains c cs where "show_int i = c # cs" and "is_digit c \<or> c = CHR ''-''"
proof (cases "i < 0")
  case True
  then have "show_int i = CHR ''-'' # show_nat (nat (- i))" by (simp add: show_int_def)
  then show ?thesis using that by blast
next
  case False
  obtain c cs where "show_nat (nat i) = c # cs" and "is_digit c" by (rule show_nat_shape)
  with False show ?thesis using that by (simp add: show_int_def)
qed

text \<open>The first character of an encoded object is no white space and closes nothing.\<close>

lemma dumps_at_head:
  obtains c cs where "dumps_at l v = c # cs" and "\<not> is_ws c" and "c \<noteq> CHR '']''"
    and "c \<noteq> CHR ''}''"
proof (cases v)
  case PNone
  then show ?thesis using that [of "CHR ''n''" "''ull''"] by (simp add: is_ws_def)
next
  case (PBool b)
  then show ?thesis
    using that [of "CHR ''t''" "''rue''"] that [of "CHR ''f''" "''alse''"]
    by (cases b) (simp_all add: is_ws_def)
next
  case (PInt i)
  obtain c cs where s: "show_int i = c # cs" and d: "is_digit c \<or> c = CHR ''-''"
    by (rule show_int_shape)
  from d have "\<not> is_ws c \<and> c \<noteq> CHR '']'' \<and> c \<noteq> CHR ''}''"
    by (auto simp add: is_digit_def is_ws_def)
  with PInt s show ?thesis using that by simp
next
  case (PStr s)
  then show ?thesis using that [of "CHR 0x22"] by (simp add: encode_string_def is_ws_def)
next
  case (PList xs)
  then show ?thesis using that [of "CHR ''[''"] by (cases "xs = []") (simp_all add: is_ws_def)
next
  case (PDict kvs)
  then show ?thesis using that [of "CHR ''{''"] by (cases "kvs = []") (simp_all add: is_ws_def)
qed

lemma skip_ws_Cons: "\<not> is_ws c \<Longrightarrow> skip_ws (c # cs) = c # cs"
  by (simp add: skip_ws_def)

lemma skip_ws_newline_indent: "skip_ws (newline_indent k @ s) = skip_ws s"
proof -
  have "\<forall>c \<in> set (newline_indent k). is_ws c"
    by (auto simp add: newline_indent_def is_ws_def)
  then show ?thesis by (simp add: skip_ws_def dropWhile_append2)
qed

lemma skip_ws_dumps_at: "skip_ws (dumps_at l v @ r) = dumps_at l v @ r"
proof -
  obtain c cs where "dumps_at l v = c # cs" and "\<not> is_ws c" by (rule dumps_at_head)
  then show ?thesis by (simp add: skip_ws_Cons)
qed


lemma join_Cons: "join sep (x # xs) = x @ (if xs = [] then [] else sep @ join sep xs)"
  by (cases xs) simp_all

lemma delimited_comma: "delimited (CHR '','' # s)"
  by (simp add: delimited_def)

lemma delimited_newline_indent: "delimited (newline_indent k @ s)"
  by (simp add: delimited_def newline_indent_def)


lemma skip_ws_join_dumps_at:
  "xs \<noteq> [] \<Longrightarrow>
   skip_ws (join sep (map (dumps_at k) xs) @ r) = join sep (map (dumps_at k) xs) @ r"
proof -
  assume "xs \<noteq> []"
  then obtain y ys where xs: "xs = y # ys" by (cases xs) auto
  have "skip_ws (dumps_at k y @ (if ys = [] then [] else sep @ join sep (map (dumps_at k) ys)) @ r)
      = dumps_at k y @ (if ys = [] then [] else sep @ join sep (map (dumps_at k) ys)) @ r"
    by (rule skip_ws_dumps_at)
  then show ?thesis by (simp add: xs join_Cons)
qed

lemma parse_elements_encoded:
  assumes "\<And>x fuel l rest. x \<in> set xs \<Longrightarrow> calls x \<le> fuel \<Longrightarrow> delimited rest \<Longrightarrow>
             parse_value fuel (dumps_at l x @ rest) = Some (rebuilt x, rest)"
    and "xs \<noteq> []"
    and "length xs + sum_list (map calls xs) \<le> n"
  shows "parse_elements n acc
           (join (CHR '','' # newline_indent k) (map (dumps_at k) xs) @
            newline_indent l @ CHR '']'' # rest) =
         Some (acc @ map rebuilt xs, rest)"
  using assms
proof (induction xs arbitrary: n acc)
  case Nil
  then show ?case by simp
next
  case (Cons x xs)
  from Cons.prems(3) obtain m where n: "n = Suc m" and mx: "calls x \<le> m"
    and ms: "length xs + sum_list (map calls xs) \<le> m"
    by (cases n) auto
  have px: "parse_value m (dumps_at k x @ r) = Some (rebuilt x, r)" if "delimited r" for r
    using Cons.prems(1) [of x m r k] mx that by simp
  let ?close = "newline_indent l @ CHR '']'' # rest"
  have close: "skip_ws ?close = CHR '']'' # rest"
    by (simp add: skip_ws_newline_indent skip_ws_Cons is_ws_def)
  show ?case
  proof (cases "xs = []")
    case True
    have "parse_value m (dumps_at k x @ ?close) = Some (rebuilt x, ?close)"
      by (rule px) (rule delimited_newline_indent)
    then show ?thesis using True n close by simp
  next
    case False
    let ?t = "join (CHR '','' # newline_indent k) (map (dumps_at k) xs) @ ?close"
    let ?r = "CHR '','' # newline_indent k @ ?t"
    have 1: "parse_value m (dumps_at k x @ ?r) = Some (rebuilt x, ?r)"
      by (rule px) (rule delimited_comma)
    have 2: "skip_ws ?r = ?r" by (simp add: skip_ws_Cons is_ws_def)
    have 3: "skip_ws (newline_indent k @ ?t) = ?t"
      using skip_ws_join_dumps_at [OF False] by (simp only: skip_ws_newline_indent)
    have 4: "parse_elements m (acc @ [rebuilt x]) ?t = Some ((acc @ [rebuilt x]) @ map rebuilt xs, rest)"
      using Cons.prems(1) False ms by (intro Cons.IH) auto
    show ?thesis using False n 1 2 3 4 by (simp add: join_Cons)
  qed
qed


lemma skip_ws_space: "skip_ws (CHR 0x20 # s) = skip_ws s"
  by (simp add: skip_ws_def is_ws_def)

lemma skip_ws_quote: "skip_ws (CHR 0x22 # s) = CHR 0x22 # s"
  by (simp add: skip_ws_Cons is_ws_def)

lemma skip_ws_join_members:
  "kvs \<noteq> [] \<Longrightarrow>
   skip_ws (join sep (map (\<lambda>kv. encode_string (fst kv) @ f kv) kvs) @ r) =
     join sep (map (\<lambda>kv. encode_string (fst kv) @ f kv) kvs) @ r"
proof -
  assume "kvs \<noteq> []"
  then obtain y ys where kvs: "kvs = y # ys" by (cases kvs) auto
  show ?thesis by (simp add: kvs join_Cons encode_string_def skip_ws_quote)
qed

lemma parse_members_encoded:
  assumes "\<And>kv fuel l rest. kv \<in> set kvs \<Longrightarrow> calls (snd kv) \<le> fuel \<Longrightarrow> delimited rest \<Longrightarrow>
             parse_value fuel (dumps_at l (snd kv) @ rest) = Some (rebuilt (snd kv), rest)"
    and "kvs \<noteq> []"
    and "length kvs + sum_list (map (\<lambda>kv. calls (snd kv)) kvs) \<le> n"
  shows "parse_members n acc
           (join (CHR '','' # newline_indent k)
              (map (\<lambda>kv. encode_string (fst kv) @ CHR '':'' # CHR 0x20 # dumps_at k (snd kv)) kvs) @
            newline_indent l @ CHR ''}'' # rest) =
         Some (foldl (\<lambda>acc kv. dict_set (fst kv) (rebuilt (snd kv)) acc) acc kvs, rest)"
  using assms
proof (induction kvs arbitrary: n acc)
  case Nil
  then show ?case by simp
next
  case (Cons kv kvs)
  from Cons.prems(3) obtain m where n: "n = Suc m" and mx: "calls (snd kv) \<le> m"
    and ms: "length kvs + sum_list (map (\<lambda>kv. calls (snd kv)) kvs) \<le> m"
    by (cases n) auto
  have px: "parse_value m (dumps_at k (snd kv) @ r) = Some (rebuilt (snd kv), r)"
    if "delimited r" for r
    using Cons.prems(1) [of kv m r k] mx that by simp
  let ?close = "newline_indent l @ CHR ''}'' # rest"
  have close: "skip_ws ?close = CHR ''}'' # rest"
    by (simp add: skip_ws_newline_indent skip_ws_Cons is_ws_def)
  have colon: "skip_ws (CHR '':'' # r) = CHR '':'' # r" for r
    by (simp add: skip_ws_Cons is_ws_def)
  have val: "skip_ws (CHR 0x20 # dumps_at k (snd kv) @ r) = dumps_at k (snd kv) @ r" for r
    by (simp add: skip_ws_space skip_ws_dumps_at)
  show ?case
  proof (cases "kvs = []")
    case True
    have "parse_value m (dumps_at k (snd kv) @ ?close) = Some (rebuilt (snd kv), ?close)"
      by (rule px) (rule delimited_newline_indent)
    then show ?thesis
      using True n close
      by (simp add: encode_string_def scan_string_encoded colon val)
  next
    case False
    let ?t = "join (CHR '','' # newline_indent k)
        (map (\<lambda>kv. encode_string (fst kv) @ CHR '':'' # CHR 0x20 # dumps_at k (snd kv)) kvs) @ ?close"
    let ?r = "CHR '','' # newline_indent k @ ?t"
    have 1: "parse_value m (dumps_at k (snd kv) @ ?r) = Some (rebuilt (snd kv), ?r)"
      by (rule px) (rule delimited_comma)
    have 2: "skip_ws ?r = ?r" by (simp add: skip_ws_Cons is_ws_def)
    have 3: "skip_ws (newline_indent k @ ?t) = ?t"
      using skip_ws_join_members [OF False] by (simp only: skip_ws_newline_indent)
    have 4: "parse_members m (dict_set (fst kv) (rebuilt (snd kv)) acc) ?t =
        Some (foldl (\<lambda>acc kv. dict_set (fst kv) (rebuilt (snd kv)) acc)
                (dict_set (fst kv) (rebuilt (snd kv)) acc) kvs, rest)"
      using Cons.prems(1) False ms by (intro Cons.IH) auto
    show ?thesis
      using False n 1 2 3 4
      by (simp add: join_Cons encode_string_def scan_string_encoded colon val)
  qed
qed


lemma join_dumps_at_head:
  assumes "xs \<noteq> []"
  obtains c cs where "join sep (map (dumps_at k) xs) @ r = c # cs" and "\<not> is_ws c"
    and "c \<noteq> CHR '']''"
proof -
  from assms obtain y ys where xs: "xs = y # ys" by (cases xs) auto
  obtain c cs where "dumps_at k y = c # cs" and "\<not> is_ws c" and "c \<noteq> CHR '']''"
    by (rule dumps_at_head)
  then show ?thesis using that by (simp add: xs join_Cons)
qed

lemma join_members_head:
  assumes "kvs \<noteq> []"
  shows "\<exists>cs. join sep
      (map (\<lambda>kv. encode_string (fst kv) @ CHR '':'' # CHR 0x20 # dumps_at k (snd kv)) kvs) @ r =
      CHR 0x22 # cs"
proof -
  from assms obtain y ys where kvs: "kvs = y # ys" by (cases kvs) auto
  show ?thesis by (simp add: kvs join_Cons encode_string_def)
qed

lemma pint_case:
  assumes "delimited rest"
  shows "parse_value (Suc n) (show_int i @ rest) = Some (PInt i, rest)"
proof -
  obtain c cs where s: "show_int i = c # cs" and d: "is_digit c \<or> c = CHR ''-''"
    by (rule show_int_shape)
  from d have "c \<noteq> CHR 0x22 \<and> c \<noteq> CHR ''['' \<and> c \<noteq> CHR ''{'' \<and> c \<noteq> CHR ''n'' \<and>
      c \<noteq> CHR ''t'' \<and> c \<noteq> CHR ''f''"
    by (auto simp add: is_digit_def)
  then have "parse_value (Suc n) (c # cs @ rest) = scan_number (c # cs @ rest)" by simp
  then have "parse_value (Suc n) (show_int i @ rest) = scan_number (show_int i @ rest)"
    by (simp only: s append_Cons)
  then show ?thesis using scan_number_show_int [OF assms, of i] by simp
qed

lemma pstr_case: "parse_value (Suc n) (encode_string s @ rest) = Some (PStr s, rest)"
  by (simp add: encode_string_def scan_string_encoded)


lemma plist_case:
  assumes IH: "\<And>x fuel l rest. x \<in> set xs \<Longrightarrow> calls x \<le> fuel \<Longrightarrow> delimited rest \<Longrightarrow>
             parse_value fuel (dumps_at l x @ rest) = Some (rebuilt x, rest)"
    and n: "length xs + sum_list (map calls xs) \<le> n"
  shows "parse_value (Suc n) (dumps_at l (PList xs) @ rest) = Some (rebuilt (PList xs), rest)"
proof (cases "xs = []")
  case True
  then show ?thesis by (simp add: skip_ws_Cons is_ws_def)
next
  case False
  let ?T = "join (CHR '','' # newline_indent (Suc l)) (map (dumps_at (Suc l)) xs) @
      newline_indent l @ CHR '']'' # rest"
  obtain c cs where T: "?T = c # cs" and ws: "\<not> is_ws c" and cl: "c \<noteq> CHR '']''"
    using join_dumps_at_head [OF False] by blast
  have "parse_elements n [] ?T = Some ([] @ map rebuilt xs, rest)"
    using IH False n by (intro parse_elements_encoded) auto
  then have pe: "parse_elements n [] (c # cs) = Some (map rebuilt xs, rest)"
    by (simp only: T append_Nil)
  have enc: "dumps_at l (PList xs) @ rest = CHR ''['' # newline_indent (Suc l) @ ?T"
    using False by simp
  have "parse_value (Suc n) (CHR ''['' # newline_indent (Suc l) @ c # cs) =
      Some (PList (map rebuilt xs), rest)"
    using pe ws cl by (simp add: skip_ws_newline_indent skip_ws_Cons)
  then show ?thesis by (simp only: enc T rebuilt.simps)
qed

lemma pdict_case:
  assumes IH: "\<And>kv fuel l rest. kv \<in> set kvs \<Longrightarrow> calls (snd kv) \<le> fuel \<Longrightarrow> delimited rest \<Longrightarrow>
             parse_value fuel (dumps_at l (snd kv) @ rest) = Some (rebuilt (snd kv), rest)"
    and n: "length kvs + sum_list (map (\<lambda>kv. calls (snd kv)) kvs) \<le> n"
  shows "parse_value (Suc n) (dumps_at l (PDict kvs) @ rest) = Some (rebuilt (PDict kvs), rest)"
proof (cases "kvs = []")
  case True
  then show ?thesis by (simp add: skip_ws_Cons is_ws_def)
next
  case False
  let ?T = "join (CHR '','' # newline_indent (Suc l))
      (map (\<lambda>kv. encode_string (fst kv) @ CHR '':'' # CHR 0x20 # dumps_at (Suc l) (snd kv)) kvs) @
      newline_indent l @ CHR ''}'' # rest"
  obtain cs where T: "?T = CHR 0x22 # cs"
    using join_members_head [OF False, of "CHR '','' # newline_indent (Suc l)" "Suc l"
        "newline_indent l @ CHR ''}'' # rest"]
    by (elim exE)
  have "parse_members n [] ?T =
      Some (foldl (\<lambda>acc kv. dict_set (fst kv) (rebuilt (snd kv)) acc) [] kvs, rest)"
    by (rule parse_members_encoded [OF IH False n])
  then have pm: "parse_members n [] (CHR 0x22 # cs) =
      Some (foldl (\<lambda>acc kv. dict_set (fst kv) (rebuilt (snd kv)) acc) [] kvs, rest)"
    by (simp only: T)
  have enc: "dumps_at l (PDict kvs) @ rest = CHR ''{'' # newline_indent (Suc l) @ ?T"
    using False by simp
  have "parse_value (Suc n) (CHR ''{'' # newline_indent (Suc l) @ CHR 0x22 # cs) =
      Some (PDict (foldl (\<lambda>acc kv. dict_set (fst kv) (rebuilt (snd kv)) acc) [] kvs), rest)"
    using pm by (simp add: skip_ws_newline_indent skip_ws_quote)
  then show ?thesis by (simp only: enc T rebuilt.simps)
qed


text \<open>
  Reading the encoding of an object, followed by a delimiter, gives the object back
  and leaves what follows, as soon as the bound allows the nested calls.
\<close>

lemma parse_value_encoded:
  "calls v \<le> fuel \<Longrightarrow> delimited rest \<Longrightarrow>
   parse_value fuel (dumps_at l v @ rest) = Some (rebuilt v, rest)"
proof (induction v arbitrary: fuel l rest)
  case PNone
  then obtain n where "fuel = Suc n" by (cases fuel) auto
  then show ?case by simp
next
  case (PBool b)
  then obtain n where "fuel = Suc n" by (cases fuel) auto
  then show ?case by (cases b) simp_all
next
  case (PInt i)
  then obtain n where "fuel = Suc n" by (cases fuel) auto
  then show ?case using pint_case [OF PInt.prems(2)] by simp
next
  case (PStr s)
  then obtain n where "fuel = Suc n" by (cases fuel) auto
  then show ?case using pstr_case by simp
next
  case (PList xs)
  from PList.prems(1) obtain n where fuel: "fuel = Suc n"
    and n: "length xs + sum_list (map calls xs) \<le> n"
    by (cases fuel) auto
  show ?case unfolding fuel by (rule plist_case [OF PList.IH n])
next
  case (PDict kvs)
  from PDict.prems(1) obtain n where fuel: "fuel = Suc n"
    and n: "length kvs + sum_list (map (\<lambda>kv. calls (snd kv)) kvs) \<le> n"
    by (cases fuel) auto
  have ih: "parse_value fuel (dumps_at l (snd kv) @ rest) = Some (rebuilt (snd kv), rest)"
    if "kv \<in> set kvs" "calls (snd kv) \<le> fuel" "delimited rest" for kv fuel l rest
  proof -
    obtain k v where kv: "kv = (k, v)" by (cases kv)
    have "v \<in> Basic_BNFs.snds kv" by (simp add: kv)
    then show ?thesis using PDict.IH [OF that(1)] that(2,3) by (simp add: kv)
  qed
  show ?case unfolding fuel by (rule pdict_case [OF ih n])
qed

lemma length_join:
  "sep \<noteq> [] \<Longrightarrow> sum_list (map length ys) + length ys \<le> Suc (length (join sep ys))"
proof (induction sep ys rule: join.induct)
  case (1 sep)
  then show ?case by simp
next
  case (2 sep x)
  then show ?case by simp
next
  case (3 sep x y ys)
  then have "1 \<le> length sep" by (cases sep) simp_all
  with 3 show ?case by simp
qed

lemma calls_le_length: "calls v \<le> length (dumps_at l v)"
proof (induction v arbitrary: l)
  case PNone
  then show ?case by simp
next
  case (PBool b)
  then show ?case by simp
next
  case (PInt i)
  obtain c cs where "show_int i = c # cs" by (rule show_int_shape)
  then show ?case by simp
next
  case (PStr s)
  then show ?case by (simp add: encode_string_def)
next
  case (PList xs)
  show ?case
  proof (cases "xs = []")
    case True
    then show ?thesis by simp
  next
    case False
    let ?ys = "map (dumps_at (Suc l)) xs"
    have "sum_list (map calls xs) \<le> sum_list (map (\<lambda>x. length (dumps_at (Suc l) x)) xs)"
      by (rule sum_list_mono) (rule PList.IH)
    then have "sum_list (map calls xs) \<le> sum_list (map length ?ys)"
      by (simp add: comp_def)
    moreover have "sum_list (map length ?ys) + length ?ys \<le>
        Suc (length (join (CHR '','' # newline_indent (Suc l)) ?ys))"
      by (rule length_join) simp
    ultimately show ?thesis using False by simp
  qed
next
  case (PDict kvs)
  show ?case
  proof (cases "kvs = []")
    case True
    then show ?thesis by simp
  next
    case False
    let ?ys = "map (\<lambda>kv. encode_string (fst kv) @ CHR '':'' # CHR 0x20 # dumps_at (Suc l) (snd kv)) kvs"
    have "calls (snd kv) \<le> length (encode_string (fst kv) @ CHR '':'' # CHR 0x20 # dumps_at (Suc l) (snd kv))"
      if "kv \<in> set kvs" for kv
    proof -
      obtain k v where kv: "kv = (k, v)" by (cases kv)
      have "v \<in> Basic_BNFs.snds kv" by (simp add: kv)
      then have "calls v \<le> length (dumps_at (Suc l) v)" using PDict.IH [OF that] by simp
      then show ?thesis by (simp add: kv)
    qed
    then have "sum_list (map (\<lambda>kv. calls (snd kv)) kvs) \<le>
        sum_list (map (\<lambda>kv. length (encode_string (fst kv) @ CHR '':'' # CHR 0x20 #
          dumps_at (Suc l) (snd kv))) kvs)"
      by (rule sum_list_mono)
    then have "sum_list (map (\<lambda>kv. calls (snd kv)) kvs) \<le> sum_list (map length ?ys)"
      by (simp add: comp_def)
    moreover have "sum_list (map length ?ys) + length ?ys \<le>
        Suc (length (join (CHR '','' # newline_indent (Suc l)) ?ys))"
      by (rule length_join) simp
    ultimately show ?thesis using False by simp
  qed
qed

text \<open>Reading the encoding of an object gives the object, rebuilt.\<close>

lemma json_loads_json_dumps: "json_loads (json_dumps v) = Inr (rebuilt v)"
proof -
  have "skip_ws (dumps_at 0 v @ []) = dumps_at 0 v @ []" by (rule skip_ws_dumps_at)
  moreover have "parse_value (length (dumps_at 0 v)) (dumps_at 0 v @ []) = Some (rebuilt v, [])"
    by (rule parse_value_encoded) (simp_all add: calls_le_length delimited_def)
  ultimately show ?thesis by (simp add: json_loads_def json_dumps_def skip_ws_def)
qed

subsection \<open>The JSON report read back\<close>

lemma rebuilt_str_iff: "rebuilt v = PStr s \<longleftrightarrow> v = PStr s"
  by (cases v) auto

lemma rebuilt_vars_of:
  "rebuilt (vars_of i) =
     PDict [(''issue_type'', rebuilt (issue_type i)), (''description'', rebuilt (description i)),
            (''location'', rebuilt (location i)), (''severity'', rebuilt (severity i)),
            (''suggestions'', rebuilt (suggestions i))]"
  by (simp add: vars_of_def)

lemma entry_severity_rebuilt:
  "entry_severity (rebuilt (vars_of i)) = Some (PStr s) \<longleftrightarrow> severity i = PStr s"
  by (simp add: rebuilt_vars_of entry_severity_def rebuilt_str_iff)

lemma rebuilt_report_object:
  "rebuilt (report_object r) =
     PDict [(''valid'', PBool (valid r)),
            (''issues'', PList (map (\<lambda>i. rebuilt (vars_of i)) (issues r))),
            (''summary'', PStr (summary r))]"
  by (simp add: report_object_def comp_def)

lemma parsed_valid_report: "parsed_valid (rebuilt (report_object r)) = Some (PBool (valid r))"
  by (simp add: rebuilt_report_object parsed_valid_def)

lemma parsed_count_report:
  "parsed_count s (rebuilt (report_object r)) = Some (count_severity s (issues r))"
proof -
  have "filter (\<lambda>entry. entry_severity entry = Some (PStr s))
          (map (\<lambda>i. rebuilt (vars_of i)) acc) =
        map (\<lambda>i. rebuilt (vars_of i)) (filter (\<lambda>i. severity i = PStr s) acc)" for acc
    by (induction acc) (simp_all add: entry_severity_rebuilt)
  then have "length (filter (\<lambda>entry. entry_severity entry = Some (PStr s))
          (map (\<lambda>i. rebuilt (vars_of i)) (issues r))) = count_severity s (issues r)"
    by (simp add: count_severity_def)
  then show ?thesis by (simp add: rebuilt_report_object parsed_count_def)
qed

text \<open>
  Claim C6.  For every result, \<open>get_report\<close> with the format \<open>json\<close> returns a text,
  and parsing that text gives a document whose member \<open>valid\<close> is the flag of the
  result and in which, for every severity, the number of entries of \<open>issues\<close> with
  that severity is the number of issues of the result with that severity.
\<close>

theorem json_report_round_trip:
  "\<exists>report doc. get_report b r ''json'' = Inr report \<and> json_loads report = Inr doc \<and>
     parsed_valid doc = Some (PBool (valid r)) \<and>
     (\<forall>s. parsed_count s doc = Some (count_severity s (issues r)))"
proof -
  have "get_report b r ''json'' = Inr (json_dumps (report_object r))"
    by (rule get_report_json) (rule lower_examples)
  moreover have "json_loads (json_dumps (report_object r)) = Inr (rebuilt (report_object r))"
    by (rule json_loads_json_dumps)
  ultimately show ?thesis
    using parsed_valid_report [of r] parsed_count_report [of _ r] by blast
qed

theorem json_report_round_trip_witness:
  "\<exists>report doc. get_report plain_builtins prose_result ''json'' = Inr report \<and>
     json_loads report = Inr doc \<and>
     parsed_valid doc = Some (PBool True) \<and>
     parsed_count ''high'' doc = Some 0 \<and>
     parsed_count ''medium'' doc = Some 1 \<and>
     parsed_count ''low'' doc = Some 0"
proof -
  obtain report doc where g: "get_report plain_builtins prose_result ''json'' = Inr report"
    and l: "json_loads report = Inr doc"
    and v: "parsed_valid doc = Some (PBool (valid prose_result))"
    and c: "\<And>s. parsed_count s doc = Some (count_severity s (issues prose_result))"
    using json_report_round_trip [of plain_builtins prose_result] by blast
  have "parsed_valid doc = Some (PBool True)"
    using v by (simp add: prose_result_def)
  moreover have "parsed_count ''high'' doc = Some 0"
    using c [of "''high''"]
    by (simp add: prose_result_def count_severity_def missing_scene_headers_issue_def)
  moreover have "parsed_count ''medium'' doc = Some 1"
    using c [of "''medium''"]
    by (simp add: prose_result_def count_severity_def missing_scene_headers_issue_def)
  moreover have "parsed_count ''low'' doc = Some 0"
    using c [of "''low''"]
    by (simp add: prose_result_def count_severity_def missing_scene_headers_issue_def)
  ultimately show ?thesis using g l by blast
qed

end
